theory Spec2Isabelle
  imports Complex_Main
begin

section \<open>Hand gesture recognition: classifier and per-frame dispatcher\<close>

text \<open>
  A shallow embedding of \<^verbatim>\<open>hand_gesture_gui.py\<close>: the configuration constants, the
  static helpers of \<^verbatim>\<open>GestureDetector\<close>, \<^verbatim>\<open>GestureDetector.classify\<close>,
  \<^verbatim>\<open>GestureApp._throttle\<close>, \<^verbatim>\<open>GestureApp._perform_keyboard_shortcut\<close> and the body of
  the \<^verbatim>\<open>while\<close> loop of \<^verbatim>\<open>GestureApp._loop\<close>.

  Conventions of the model.
  \<^item> Python floats are modelled as exact reals: comparisons, sums and products are the
    mathematical ones, \<^verbatim>\<open>math.hypot\<close> is the exact Euclidean norm, and the decimal
    constants are the decimal fractions the source writes. Rounding error and the special
    values NaN and infinity are outside the model.
  \<^item> Python's \<^verbatim>\<open>int(f)\<close> on a float truncates toward zero.
  \<^item> A landmark container is a list; \<^verbatim>\<open>lm[i]\<close> with \<^verbatim>\<open>i\<close> beyond the end raises
    \<^verbatim>\<open>IndexError\<close>.
  \<^item> Gesture labels and dictionary keys are the strings of the source.
  \<^item> The calls into pyautogui and the volume controller are recorded, in order, in a
    trace. \<^verbatim>\<open>print\<close> calls, drawing and the Tk widgets are left out.
  \<^item> \<^verbatim>\<open>time.time()\<close> is a clock that is read anew by every \<^verbatim>\<open>_throttle\<close> call: the
    n-th reading of a session is \<open>clock n\<close>.
\<close>

subsection \<open>Configuration\<close>

definition PINCH_THRESHOLD :: real where
  "PINCH_THRESHOLD = 0.04"

definition DIST_OK_THRESHOLD :: real where
  "DIST_OK_THRESHOLD = 0.035"

definition SMOOTHING :: real where
  "SMOOTHING = 0.25"

definition SCROLL_SENSITIVITY :: real where
  "SCROLL_SENSITIVITY = 900"

definition SCROLL_MIN_DELTA :: real where
  "SCROLL_MIN_DELTA = 0.004"

definition COOLDOWN_SHORT :: real where
  "COOLDOWN_SHORT = 0.35"

definition COOLDOWN_MED :: real where
  "COOLDOWN_MED = 0.9"

definition COOLDOWN_SCROLL :: real where
  "COOLDOWN_SCROLL = 0.06"

subsection \<open>Landmarks and Python primitives\<close>

text \<open>A landmark has the attributes \<^verbatim>\<open>x\<close> and \<^verbatim>\<open>y\<close>; the fields are named
  \<open>lm_x\<close> and \<open>lm_y\<close> so that \<open>x\<close> and \<open>y\<close> stay free for variables.\<close>

record landmark =
  lm_x :: real
  lm_y :: real

datatype error = IndexError | TypeError

text \<open>\<^verbatim>\<open>lm[i]\<close> for a non-negative literal index.\<close>

definition getitem :: "'a list \<Rightarrow> nat \<Rightarrow> error + 'a" where
  "getitem lm i = (if i < length lm then Inr (lm ! i) else Inl IndexError)"

text \<open>Sequencing of a computation that may raise: the first exception ends it.\<close>

definition and_then :: "error + 'a \<Rightarrow> ('a \<Rightarrow> error + 'b) \<Rightarrow> error + 'b" where
  "and_then r f = (case r of Inl e \<Rightarrow> Inl e | Inr v \<Rightarrow> f v)"

text \<open>\<^verbatim>\<open>int(f)\<close> of a float: truncation toward zero.\<close>

definition py_int :: "real \<Rightarrow> int" where
  "py_int r = (if 0 \<le> r then \<lfloor>r\<rfloor> else \<lceil>r\<rceil>)"

subsection \<open>GestureDetector\<close>

definition finger_up :: "landmark \<Rightarrow> landmark \<Rightarrow> bool" where
  "finger_up tip pip = (lm_y tip < lm_y pip)"

definition hypot :: "real \<Rightarrow> real \<Rightarrow> real" where
  "hypot a b = sqrt (a\<^sup>2 + b\<^sup>2)"

definition euclidean :: "landmark \<Rightarrow> landmark \<Rightarrow> real" where
  "euclidean p1 p2 = hypot (lm_x p1 - lm_x p2) (lm_y p1 - lm_y p2)"

text \<open>\<^verbatim>\<open>classify\<close>: the ten lookups in the order of the source, then the rules in
  the order of the source. \<^verbatim>\<open>sum\<close> of a list of booleans counts the true ones.\<close>

definition classify :: "landmark list \<Rightarrow> error + string" where
  "classify lm =
    and_then (getitem lm 4) (\<lambda>thumb_tip.
    and_then (getitem lm 3) (\<lambda>thumb_ip.
    and_then (getitem lm 8) (\<lambda>index_tip.
    and_then (getitem lm 6) (\<lambda>index_pip.
    and_then (getitem lm 12) (\<lambda>middle_tip.
    and_then (getitem lm 10) (\<lambda>middle_pip.
    and_then (getitem lm 16) (\<lambda>ring_tip.
    and_then (getitem lm 14) (\<lambda>ring_pip.
    and_then (getitem lm 20) (\<lambda>pinky_tip.
    and_then (getitem lm 18) (\<lambda>pinky_pip.
      let thumb_up = (lm_x thumb_tip < lm_x thumb_ip);
          index_up = finger_up index_tip index_pip;
          middle_up = finger_up middle_tip middle_pip;
          ring_up = finger_up ring_tip ring_pip;
          pinky_up = finger_up pinky_tip pinky_pip;
          fingers_up_count =
            (sum_list (map of_bool [index_up, middle_up, ring_up, pinky_up]) :: int);
          dist_thumb_index = euclidean thumb_tip index_tip
      in
        if fingers_up_count = 4 \<and> thumb_up then Inr ''OPEN_PALM''
        else if dist_thumb_index < DIST_OK_THRESHOLD then Inr ''OK_SIGN''
        else if index_up \<and> middle_up \<and> \<not> ring_up \<and> \<not> pinky_up then Inr ''PEACE''
        else if index_up \<and> \<not> middle_up \<and> \<not> ring_up \<and> pinky_up then Inr ''ROCK''
        else if thumb_up \<and> index_up \<and> \<not> middle_up \<and> \<not> ring_up \<and> \<not> pinky_up
          then Inr ''L_SIGN''
        else if thumb_up \<and> \<not> index_up \<and> \<not> middle_up \<and> \<not> ring_up \<and> \<not> pinky_up
          then Inr ''THUMBS_UP''
        else if fingers_up_count = 0 \<and> \<not> thumb_up then Inr ''FIST''
        else Inr ''UNKNOWN''))))))))))"

subsection \<open>The classifier as the specification words it\<close>

text \<open>The finger states of a landmark set, named as in the specification: a finger is up
  if its tip is above its proximal joint (smaller y), the thumb if its tip is left of its
  joint; \<open>up_count\<close> counts the up fingers among index, middle, ring and pinky;
  \<open>pinch_distance\<close> is the distance between thumb tip and index tip.\<close>

record finger_state =
  thumb_up :: bool
  index_up :: bool
  middle_up :: bool
  ring_up :: bool
  pinky_up :: bool
  up_count :: nat
  pinch_distance :: real

definition finger_state_of :: "landmark list \<Rightarrow> finger_state" where
  "finger_state_of lm =
    \<lparr> thumb_up = lm_x (lm ! 4) < lm_x (lm ! 3),
      index_up = lm_y (lm ! 8) < lm_y (lm ! 6),
      middle_up = lm_y (lm ! 12) < lm_y (lm ! 10),
      ring_up = lm_y (lm ! 16) < lm_y (lm ! 14),
      pinky_up = lm_y (lm ! 20) < lm_y (lm ! 18),
      up_count = length (filter (\<lambda>(tip, pip). lm_y (lm ! tip) < lm_y (lm ! pip))
                   [(8, 6), (12, 10), (16, 14), (20, 18)]),
      pinch_distance = sqrt ((lm_x (lm ! 4) - lm_x (lm ! 8))\<^sup>2 + (lm_y (lm ! 4) - lm_y (lm ! 8))\<^sup>2) \<rparr>"

text \<open>The priority list of the specification, rules 1 to 7; rule 8 is the default.\<close>

definition priority_rules :: "((finger_state \<Rightarrow> bool) \<times> string) list" where
  "priority_rules =
    [ (\<lambda>f. up_count f = 4 \<and> thumb_up f, ''OPEN_PALM''),
      (\<lambda>f. pinch_distance f < DIST_OK_THRESHOLD, ''OK_SIGN''),
      (\<lambda>f. index_up f \<and> middle_up f \<and> \<not> ring_up f \<and> \<not> pinky_up f, ''PEACE''),
      (\<lambda>f. index_up f \<and> \<not> middle_up f \<and> \<not> ring_up f \<and> pinky_up f, ''ROCK''),
      (\<lambda>f. thumb_up f \<and> index_up f \<and> \<not> middle_up f \<and> \<not> ring_up f \<and> \<not> pinky_up f, ''L_SIGN''),
      (\<lambda>f. thumb_up f \<and> \<not> index_up f \<and> \<not> middle_up f \<and> \<not> ring_up f \<and> \<not> pinky_up f,
         ''THUMBS_UP''),
      (\<lambda>f. up_count f = 0 \<and> \<not> thumb_up f, ''FIST'') ]"

definition first_match :: "finger_state \<Rightarrow> string" where
  "first_match f =
    (case find (\<lambda>rule. fst rule f) priority_rules of
       Some rule \<Rightarrow> snd rule
     | None \<Rightarrow> ''UNKNOWN'')"

text \<open>The gesture labels \<^verbatim>\<open>classify\<close> can return.\<close>

definition gesture_labels :: "string list" where
  "gesture_labels =
    [''OPEN_PALM'', ''OK_SIGN'', ''PEACE'', ''ROCK'', ''L_SIGN'', ''THUMBS_UP'', ''FIST'',
     ''UNKNOWN'']"

subsection \<open>Test hands\<close>

text \<open>A 21-landmark hand for concrete evaluations: the ten landmarks \<^verbatim>\<open>classify\<close> reads
  are given, the other eleven are the point \<open>filler\<close>.\<close>

definition pt :: "real \<Rightarrow> real \<Rightarrow> landmark" where
  "pt a b = \<lparr> lm_x = a, lm_y = b \<rparr>"

definition hand :: "landmark \<Rightarrow> landmark \<Rightarrow> landmark \<Rightarrow> landmark \<Rightarrow> landmark \<Rightarrow> landmark \<Rightarrow>
    landmark \<Rightarrow> landmark \<Rightarrow> landmark \<Rightarrow> landmark \<Rightarrow> landmark \<Rightarrow> landmark list" where
  "hand filler thumb_ip thumb_tip index_pip index_tip middle_pip middle_tip
        ring_pip ring_tip pinky_pip pinky_tip =
    [filler, filler, filler, thumb_ip, thumb_tip, filler, index_pip, filler, index_tip,
     filler, middle_pip, filler, middle_tip, filler, ring_pip, filler, ring_tip, filler,
     pinky_pip, filler, pinky_tip]"

definition open_pinched_hand :: "landmark list" where
  "open_pinched_hand =
    hand (pt 0.5 0.5) (pt 0.4 0.3) (pt 0.39 0.21) (pt 0.4 0.3) (pt 0.4 0.2)
      (pt 0.5 0.3) (pt 0.5 0.2) (pt 0.6 0.3) (pt 0.6 0.2) (pt 0.7 0.3) (pt 0.7 0.2)"

subsection \<open>GestureApp: state, clock and trace\<close>

text \<open>The calls the loop makes into pyautogui and the volume controller.\<close>

datatype call =
    MoveTo int int
  | Click
  | RightClick
  | Hotkey string string
  | VolumeUp
  | VolumeDown
  | MuteUnmute
  | Scroll int

text \<open>A trace entry is a call with the time of the \<^verbatim>\<open>_throttle\<close> call that allowed it
  (\<open>None\<close> for \<^verbatim>\<open>moveTo\<close>, which no cooldown gates).\<close>

type_synonym entry = "real option \<times> call"

text \<open>The runtime state of \<^verbatim>\<open>GestureApp\<close> (the fields \<^verbatim>\<open>_loop\<close> reads and writes),
  followed by the environment: the clock, the number of readings taken, and the trace.\<close>

record GestureApp =
  prev_mouse_x :: "int option"
  prev_mouse_y :: "int option"
  screen_w :: int
  screen_h :: int
  last_times :: "string \<rightharpoonup> real"
  scroll_mode :: bool
  last_index_y :: "real option"
  clock :: "nat \<Rightarrow> real"
  ticks :: nat
  trace :: "entry list"

text \<open>The state \<^verbatim>\<open>__init__\<close> builds, for a screen size and a clock.\<close>

definition initial :: "int \<Rightarrow> int \<Rightarrow> (nat \<Rightarrow> real) \<Rightarrow> GestureApp" where
  "initial w h clk =
    \<lparr> prev_mouse_x = None, prev_mouse_y = None, screen_w = w, screen_h = h,
      last_times = [''volume'' \<mapsto> 0, ''mute'' \<mapsto> 0, ''click'' \<mapsto> 0, ''keyboard'' \<mapsto> 0,
                    ''scroll'' \<mapsto> 0],
      scroll_mode = False, last_index_y = None,
      clock = clk, ticks = 0, trace = [] \<rparr>"

text \<open>\<^verbatim>\<open>self.last_times.get(key, 0)\<close>.\<close>

definition last_time :: "GestureApp \<Rightarrow> string \<Rightarrow> real" where
  "last_time s key = (case last_times s key of None \<Rightarrow> 0 | Some t \<Rightarrow> t)"

text \<open>\<^verbatim>\<open>_throttle\<close>: one reading of the clock, then the comparison and the update.\<close>

definition throttle :: "string \<Rightarrow> real \<Rightarrow> GestureApp \<Rightarrow> bool \<times> GestureApp" where
  "throttle key cooldown s =
    (let now = clock s (ticks s);
         s1 = s\<lparr>ticks := Suc (ticks s)\<rparr>
     in if now - last_time s1 key \<ge> cooldown
        then (True, s1\<lparr>last_times := (last_times s1)(key \<mapsto> now)\<rparr>)
        else (False, s1))"

text \<open>Recording a call. A call made under a cooldown key is recorded with the time that
  key's \<^verbatim>\<open>_throttle\<close> call has just stored in \<^verbatim>\<open>last_times\<close>.\<close>

definition emit :: "call \<Rightarrow> GestureApp \<Rightarrow> GestureApp" where
  "emit c s = s\<lparr>trace := trace s @ [(None, c)]\<rparr>"

definition emit_gated :: "string \<Rightarrow> call \<Rightarrow> GestureApp \<Rightarrow> GestureApp" where
  "emit_gated key c s = s\<lparr>trace := trace s @ [(Some (last_time s key), c)]\<rparr>"

text \<open>The pattern \<^verbatim>\<open>if ... and self._throttle(key, cooldown): call()\<close>, once the tests
  before \<^verbatim>\<open>and\<close> have passed.\<close>

definition gated :: "string \<Rightarrow> real \<Rightarrow> call \<Rightarrow> GestureApp \<Rightarrow> GestureApp" where
  "gated key cooldown c s =
    (case throttle key cooldown s of
       (True, s1) \<Rightarrow> emit_gated key c s1
     | (False, s1) \<Rightarrow> s1)"

definition perform_keyboard_shortcut :: "string \<Rightarrow> GestureApp \<Rightarrow> GestureApp" where
  "perform_keyboard_shortcut gesture s =
    (case throttle ''keyboard'' COOLDOWN_MED s of
       (False, s1) \<Rightarrow> s1
     | (True, s1) \<Rightarrow>
         if gesture = ''OK_SIGN'' then emit_gated ''keyboard'' (Hotkey ''ctrl'' ''c'') s1
         else if gesture = ''L_SIGN'' then emit_gated ''keyboard'' (Hotkey ''ctrl'' ''v'') s1
         else if gesture = ''PEACE'' then emit_gated ''keyboard'' (Hotkey ''ctrl'' ''s'') s1
         else s1)"

subsection \<open>The body of the loop, section by section\<close>

text \<open>Mouse move. \<^verbatim>\<open>prev_mouse_x\<close> and \<^verbatim>\<open>prev_mouse_y\<close> are set together wherever the
  source sets them; adding to a \<^verbatim>\<open>None\<close> raises \<^verbatim>\<open>TypeError\<close>.\<close>

definition mouse_move :: "landmark \<Rightarrow> GestureApp \<Rightarrow> error option \<times> GestureApp" where
  "mouse_move index_tip s =
    (let target_x = py_int (lm_x index_tip * real_of_int (screen_w s));
         target_y = py_int (lm_y index_tip * real_of_int (screen_h s));
         s1 = (if prev_mouse_x s = None
               then s\<lparr>prev_mouse_x := Some target_x, prev_mouse_y := Some target_y\<rparr>
               else s)
     in case prev_mouse_x s1 of
          None \<Rightarrow> (Some TypeError, s1)
        | Some px \<Rightarrow>
            let smooth_x = py_int (real_of_int px + (real_of_int target_x - real_of_int px) * SMOOTHING)
            in case prev_mouse_y s1 of
                 None \<Rightarrow> (Some TypeError, s1)
               | Some py \<Rightarrow>
                   let smooth_y =
                         py_int (real_of_int py + (real_of_int target_y - real_of_int py) * SMOOTHING);
                       s2 = emit (MoveTo smooth_x smooth_y) s1
                   in (None, s2\<lparr>prev_mouse_x := Some smooth_x, prev_mouse_y := Some smooth_y\<rparr>))"

text \<open>Left click via pinch. \<^verbatim>\<open>thumb_pos\<close> and \<^verbatim>\<open>index_pos\<close> are non-empty tuples, so
  the outer test always passes.\<close>

definition left_click :: "landmark \<Rightarrow> landmark \<Rightarrow> GestureApp \<Rightarrow> GestureApp" where
  "left_click thumb_tip index_tip s =
    (let index_pos = (lm_x index_tip, lm_y index_tip);
         thumb_pos = (lm_x thumb_tip, lm_y thumb_tip);
         dist_pin = hypot (fst thumb_pos - fst index_pos) (snd thumb_pos - snd index_pos)
     in if dist_pin < PINCH_THRESHOLD then gated ''click'' COOLDOWN_MED Click s else s)"

definition right_click :: "string \<Rightarrow> GestureApp \<Rightarrow> GestureApp" where
  "right_click gesture_text s =
    (if gesture_text = ''L_SIGN'' then gated ''click'' COOLDOWN_MED RightClick s else s)"

definition volume_controls :: "string \<Rightarrow> GestureApp \<Rightarrow> GestureApp" where
  "volume_controls gesture_text s =
    (let s1 = (if gesture_text = ''THUMBS_UP''
               then gated ''volume'' COOLDOWN_SHORT VolumeUp s else s);
         s2 = (if gesture_text = ''FIST''
               then gated ''volume'' COOLDOWN_SHORT VolumeDown s1 else s1)
     in if gesture_text = ''ROCK'' then gated ''mute'' COOLDOWN_MED MuteUnmute s2 else s2)"

definition keyboard_shortcuts :: "string \<Rightarrow> GestureApp \<Rightarrow> GestureApp" where
  "keyboard_shortcuts gesture_text s =
    (if gesture_text \<in> set [''OK_SIGN'', ''L_SIGN'', ''PEACE'']
     then perform_keyboard_shortcut gesture_text s else s)"

text \<open>Scrolling mode. Subtracting from a \<^verbatim>\<open>None\<close> baseline raises \<^verbatim>\<open>TypeError\<close>.\<close>

definition scrolling_mode :: "string \<Rightarrow> landmark \<Rightarrow> GestureApp \<Rightarrow> error option \<times> GestureApp" where
  "scrolling_mode gesture_text index_tip s =
    (if gesture_text = ''OPEN_PALM'' then
       if \<not> scroll_mode s
       then (None, s\<lparr>scroll_mode := True, last_index_y := Some (lm_y index_tip)\<rparr>)
       else
         case last_index_y s of
           None \<Rightarrow> (Some TypeError, s)
         | Some base \<Rightarrow>
             let dy = base - lm_y index_tip;
                 s1 = (if \<bar>dy\<bar> > SCROLL_MIN_DELTA
                       then
                         case throttle ''scroll'' COOLDOWN_SCROLL s of
                           (True, s') \<Rightarrow>
                             let scroll_amount = py_int (dy * SCROLL_SENSITIVITY)
                             in if scroll_amount \<noteq> 0
                                then emit_gated ''scroll'' (Scroll scroll_amount) s'
                                else s'
                         | (False, s') \<Rightarrow> s'
                       else s)
             in (None, s1\<lparr>last_index_y := Some (base * 0.85 + lm_y index_tip * 0.15)\<rparr>)
     else
       if scroll_mode s
       then (None, s\<lparr>scroll_mode := False, last_index_y := None\<rparr>)
       else (None, s))"

text \<open>One iteration of the loop for one camera frame. The observation is \<open>Some lm\<close> when
  MediaPipe reports a hand with landmarks \<open>lm\<close>, and \<open>None\<close> otherwise. The result is the
  exception that ended the iteration, if any, and the state at that point.
  \<^verbatim>\<open>lm[8]\<close> and \<^verbatim>\<open>lm[4]\<close> are read after \<^verbatim>\<open>classify\<close> has returned, hence in range.\<close>

definition frame :: "landmark list option \<Rightarrow> GestureApp \<Rightarrow> error option \<times> GestureApp" where
  "frame obs s =
    (case obs of
       None \<Rightarrow> (None, s)
     | Some lm \<Rightarrow>
         case classify lm of
           Inl e \<Rightarrow> (Some e, s)
         | Inr gesture_text \<Rightarrow>
             let index_tip = lm ! 8;
                 thumb_tip = lm ! 4
             in case mouse_move index_tip s of
                  (Some e, s1) \<Rightarrow> (Some e, s1)
                | (None, s1) \<Rightarrow>
                    let s2 = left_click thumb_tip index_tip s1;
                        s3 = right_click gesture_text s2;
                        s4 = volume_controls gesture_text s3;
                        s5 = keyboard_shortcuts gesture_text s4
                    in scrolling_mode gesture_text index_tip s5)"

text \<open>The loop over a finite sequence of camera frames; an exception ends it.\<close>

fun run :: "landmark list option list \<Rightarrow> GestureApp \<Rightarrow> error option \<times> GestureApp" where
  "run [] s = (None, s)"
| "run (obs # rest) s =
    (case frame obs s of
       (Some e, s') \<Rightarrow> (Some e, s')
     | (None, s') \<Rightarrow> run rest s')"

subsection \<open>Cooldown categories\<close>

text \<open>The key under which the source gates each call, and the cooldown each key is
  throttled with at every one of its call sites.\<close>

fun key_of :: "call \<Rightarrow> string option" where
  "key_of (MoveTo a b) = None"
| "key_of Click = Some ''click''"
| "key_of RightClick = Some ''click''"
| "key_of (Hotkey a b) = Some ''keyboard''"
| "key_of VolumeUp = Some ''volume''"
| "key_of VolumeDown = Some ''volume''"
| "key_of MuteUnmute = Some ''mute''"
| "key_of (Scroll n) = Some ''scroll''"

definition cooldown_of :: "string \<Rightarrow> real" where
  "cooldown_of key =
    (if key = ''volume'' then COOLDOWN_SHORT
     else if key = ''scroll'' then COOLDOWN_SCROLL
     else COOLDOWN_MED)"

text \<open>Two entries of a trace, the first recorded before the second, respect the cooldown:
  if their calls have the same key, both carry a time and the times are at least that
  key's cooldown apart.\<close>

definition respects_cooldown :: "entry \<Rightarrow> entry \<Rightarrow> bool" where
  "respects_cooldown a b =
    (case key_of (snd a) of
       None \<Rightarrow> True
     | Some k \<Rightarrow>
         if key_of (snd b) = Some k
         then (case (fst a, fst b) of
                 (Some t, Some t') \<Rightarrow> cooldown_of k \<le> t' - t
               | _ \<Rightarrow> False)
         else True)"

definition spaced :: "entry list \<Rightarrow> bool" where
  "spaced tr = sorted_wrt respects_cooldown tr"

definition fist_hand :: "landmark list" where
  "fist_hand =
    hand (pt 0.5 0.5) (pt 0.4 0.6) (pt 0.45 0.6) (pt 0.5 0.4) (pt 0.5 0.5)
      (pt 0.55 0.4) (pt 0.55 0.5) (pt 0.6 0.4) (pt 0.6 0.5) (pt 0.65 0.4) (pt 0.65 0.5)"

subsection \<open>The invariant of the trace\<close>

text \<open>An entry is bounded by the state if its call is ungated, or it carries a time that
  is not later than the time stored for its key.\<close>

definition bounded_by :: "(string \<rightharpoonup> real) \<Rightarrow> entry \<Rightarrow> bool" where
  "bounded_by lt e =
    (case key_of (snd e) of
       None \<Rightarrow> True
     | Some k \<Rightarrow>
         (case fst e of
            None \<Rightarrow> False
          | Some t \<Rightarrow> t \<le> (case lt k of None \<Rightarrow> 0 | Some u \<Rightarrow> u)))"

definition trace_ok :: "GestureApp \<Rightarrow> bool" where
  "trace_ok s = (spaced (trace s) \<and> list_all (bounded_by (last_times s)) (trace s))"

subsection \<open>Test scenarios\<close>

text \<open>An OK sign: thumb tip and index tip 0.01 apart, index up, the others down.\<close>

definition ok_hand :: "landmark list" where
  "ok_hand =
    hand (pt 0.5 0.5) (pt 0.45 0.35) (pt 0.4 0.3) (pt 0.41 0.35) (pt 0.41 0.3)
      (pt 0.5 0.4) (pt 0.5 0.5) (pt 0.6 0.4) (pt 0.6 0.5) (pt 0.7 0.4) (pt 0.7 0.5)"

text \<open>An L sign whose thumb tip and index tip are 0.037 apart, and one with them 0.1 apart.\<close>

definition l_pinch_hand :: "landmark list" where
  "l_pinch_hand =
    hand (pt 0.5 0.5) (pt 0.45 0.5) (pt 0.4 0.4) (pt 0.4 0.45) (pt 0.4 0.363)
      (pt 0.5 0.4) (pt 0.5 0.5) (pt 0.6 0.4) (pt 0.6 0.5) (pt 0.7 0.4) (pt 0.7 0.5)"

definition l_hand :: "landmark list" where
  "l_hand =
    hand (pt 0.5 0.5) (pt 0.45 0.5) (pt 0.4 0.4) (pt 0.4 0.45) (pt 0.4 0.3)
      (pt 0.5 0.4) (pt 0.5 0.5) (pt 0.6 0.4) (pt 0.6 0.5) (pt 0.7 0.4) (pt 0.7 0.5)"

text \<open>A clock whose readings are 0.3 s apart, and one whose readings are 0.5 s apart.\<close>

definition clock_03 :: "nat \<Rightarrow> real" where
  "clock_03 n = 100 + 0.3 * real n"

definition clock_05 :: "nat \<Rightarrow> real" where
  "clock_05 n = 100 + 0.5 * real n"

text \<open>Two entries, the first recorded before the second: if both are clicks (left or right),
  both carry a time and the times are at least the click cooldown apart.\<close>

definition clicks_apart :: "entry \<Rightarrow> entry \<Rightarrow> bool" where
  "clicks_apart a b =
    (if snd a \<in> {Click, RightClick} \<and> snd b \<in> {Click, RightClick}
     then (case (fst a, fst b) of
             (Some t, Some t') \<Rightarrow> COOLDOWN_MED \<le> t' - t
           | _ \<Rightarrow> False)
     else True)"

text \<open>An open palm away from any pinch, with the index tip at height 0.5 and at 0.4945.\<close>

definition open_hand_a :: "landmark list" where
  "open_hand_a =
    hand (pt 0.5 0.5) (pt 0.3 0.6) (pt 0.2 0.6) (pt 0.4 0.6) (pt 0.4 0.5)
      (pt 0.5 0.6) (pt 0.5 0.5) (pt 0.6 0.6) (pt 0.6 0.5) (pt 0.7 0.6) (pt 0.7 0.5)"

definition open_hand_b :: "landmark list" where
  "open_hand_b =
    hand (pt 0.5 0.5) (pt 0.3 0.6) (pt 0.2 0.6) (pt 0.4 0.6) (pt 0.4 0.4945)
      (pt 0.5 0.6) (pt 0.5 0.5) (pt 0.6 0.6) (pt 0.6 0.5) (pt 0.7 0.6) (pt 0.7 0.5)"

text \<open>A pointing hand (only the index up, thumb not up), which no rule matches, with the
  index tip at x = 957/1024 and at x = 960/1024.\<close>

definition point_hand_a :: "landmark list" where
  "point_hand_a =
    hand (pt 0.5 0.5) (pt 0.5 0.6) (pt 0.6 0.6) (pt 0.93 0.6) (pt 0.9345703125 0.5)
      (pt 0.5 0.6) (pt 0.5 0.7) (pt 0.6 0.6) (pt 0.6 0.7) (pt 0.7 0.6) (pt 0.7 0.7)"

definition point_hand_b :: "landmark list" where
  "point_hand_b =
    hand (pt 0.5 0.5) (pt 0.5 0.6) (pt 0.6 0.6) (pt 0.93 0.6) (pt 0.9375 0.5)
      (pt 0.5 0.6) (pt 0.5 0.7) (pt 0.6 0.6) (pt 0.6 0.7) (pt 0.7 0.6) (pt 0.7 0.7)"

subsection \<open>Well-formed states and the smoothing step\<close>

text \<open>The fields that are set together are present together; no \<^verbatim>\<open>TypeError\<close> arises
  from such a state.\<close>

definition coherent :: "GestureApp \<Rightarrow> bool" where
  "coherent s =
    ((prev_mouse_x s = None \<or> prev_mouse_y s \<noteq> None) \<and>
     (\<not> scroll_mode s \<or> last_index_y s \<noteq> None))"

text \<open>The sections between mouse move and scrolling change only the cooldown times, the
  number of clock readings and the trace.\<close>

definition gate_step :: "GestureApp \<Rightarrow> GestureApp \<Rightarrow> bool" where
  "gate_step s s' =
    (prev_mouse_x s' = prev_mouse_x s \<and> prev_mouse_y s' = prev_mouse_y s \<and>
     screen_w s' = screen_w s \<and> screen_h s' = screen_h s \<and>
     scroll_mode s' = scroll_mode s \<and> last_index_y s' = last_index_y s \<and>
     clock s' = clock s)"

text \<open>The smoothing expression of the mouse-move section, for one coordinate.\<close>

definition smooth :: "int \<Rightarrow> int \<Rightarrow> int" where
  "smooth target prev =
    py_int (real_of_int prev + (real_of_int target - real_of_int prev) * SMOOTHING)"

section \<open>Properties of the classifier\<close>

lemma and_then_in: "i < length lm \<Longrightarrow> and_then (getitem lm i) f = f (lm ! i)"
  by (simp add: and_then_def getitem_def)

lemma and_then_raises:
  "(\<And>v. f v = Inl IndexError) \<Longrightarrow> and_then (getitem lm i) f = Inl IndexError"
  by (simp add: and_then_def getitem_def)

lemma classify_short:
  assumes "length lm < 21"
  shows "classify lm = Inl IndexError"
proof -
  have last: "\<And>f. and_then (getitem lm 20) f = Inl IndexError"
    using assms by (simp add: and_then_def getitem_def)
  show ?thesis
    unfolding classify_def
    apply (rule and_then_raises)
    apply (rule and_then_raises)
    apply (rule and_then_raises)
    apply (rule and_then_raises)
    apply (rule and_then_raises)
    apply (rule and_then_raises)
    apply (rule and_then_raises)
    apply (rule and_then_raises)
    apply (rule last)
    done
qed

lemma count4: "(sum_list (map of_bool [a, b, c, d]) :: int) = 4 \<longleftrightarrow> a \<and> b \<and> c \<and> d"
  by (cases a; cases b; cases c; cases d) simp_all

lemma count0:
  "(sum_list (map of_bool [a, b, c, d]) :: int) = 0 \<longleftrightarrow> \<not> a \<and> \<not> b \<and> \<not> c \<and> \<not> d"
  by (cases a; cases b; cases c; cases d) simp_all

text \<open>With at least 21 landmarks every lookup succeeds and the rules decide.\<close>

lemma classify_long:
  assumes "20 < length lm"
  shows "classify lm =
   (let thumb_up = (lm_x (lm ! 4) < lm_x (lm ! 3));
        index_up = finger_up (lm ! 8) (lm ! 6);
        middle_up = finger_up (lm ! 12) (lm ! 10);
        ring_up = finger_up (lm ! 16) (lm ! 14);
        pinky_up = finger_up (lm ! 20) (lm ! 18);
        dist_thumb_index = euclidean (lm ! 4) (lm ! 8)
    in
      if (index_up \<and> middle_up \<and> ring_up \<and> pinky_up) \<and> thumb_up then Inr ''OPEN_PALM''
      else if dist_thumb_index < DIST_OK_THRESHOLD then Inr ''OK_SIGN''
      else if index_up \<and> middle_up \<and> \<not> ring_up \<and> \<not> pinky_up then Inr ''PEACE''
      else if index_up \<and> \<not> middle_up \<and> \<not> ring_up \<and> pinky_up then Inr ''ROCK''
      else if thumb_up \<and> index_up \<and> \<not> middle_up \<and> \<not> ring_up \<and> \<not> pinky_up
        then Inr ''L_SIGN''
      else if thumb_up \<and> \<not> index_up \<and> \<not> middle_up \<and> \<not> ring_up \<and> \<not> pinky_up
        then Inr ''THUMBS_UP''
      else if (\<not> index_up \<and> \<not> middle_up \<and> \<not> ring_up \<and> \<not> pinky_up) \<and> \<not> thumb_up
        then Inr ''FIST''
      else Inr ''UNKNOWN'')"
proof -
  have r: "\<And>i f. i \<le> 20 \<Longrightarrow> and_then (getitem lm i) f = f (lm ! i)"
    using assms by (simp add: and_then_in)
  show ?thesis
    unfolding classify_def
    by (simp only: r count4 count0 Let_def numeral_le_iff semiring_norm)
qed

lemma first_match_unfold:
  "first_match f =
    (if up_count f = 4 \<and> thumb_up f then ''OPEN_PALM''
     else if pinch_distance f < DIST_OK_THRESHOLD then ''OK_SIGN''
     else if index_up f \<and> middle_up f \<and> \<not> ring_up f \<and> \<not> pinky_up f then ''PEACE''
     else if index_up f \<and> \<not> middle_up f \<and> \<not> ring_up f \<and> pinky_up f then ''ROCK''
     else if thumb_up f \<and> index_up f \<and> \<not> middle_up f \<and> \<not> ring_up f \<and> \<not> pinky_up f
       then ''L_SIGN''
     else if thumb_up f \<and> \<not> index_up f \<and> \<not> middle_up f \<and> \<not> ring_up f \<and> \<not> pinky_up f
       then ''THUMBS_UP''
     else if up_count f = 0 \<and> \<not> thumb_up f then ''FIST''
     else ''UNKNOWN'')"
  unfolding first_match_def priority_rules_def
  by (simp only: find.simps fst_conv snd_conv option.case if_distrib [of "case_option _ _"]
      cong: if_cong)

lemma up_count_4:
  "up_count (finger_state_of lm) = 4 \<longleftrightarrow>
     index_up (finger_state_of lm) \<and> middle_up (finger_state_of lm) \<and>
     ring_up (finger_state_of lm) \<and> pinky_up (finger_state_of lm)"
  by (simp add: finger_state_of_def)

lemma up_count_0:
  "up_count (finger_state_of lm) = 0 \<longleftrightarrow>
     \<not> index_up (finger_state_of lm) \<and> \<not> middle_up (finger_state_of lm) \<and>
     \<not> ring_up (finger_state_of lm) \<and> \<not> pinky_up (finger_state_of lm)"
  by (simp add: finger_state_of_def)

lemma finger_state_fields:
  "thumb_up (finger_state_of lm) = (lm_x (lm ! 4) < lm_x (lm ! 3))"
  "index_up (finger_state_of lm) = finger_up (lm ! 8) (lm ! 6)"
  "middle_up (finger_state_of lm) = finger_up (lm ! 12) (lm ! 10)"
  "ring_up (finger_state_of lm) = finger_up (lm ! 16) (lm ! 14)"
  "pinky_up (finger_state_of lm) = finger_up (lm ! 20) (lm ! 18)"
  "pinch_distance (finger_state_of lm) = euclidean (lm ! 4) (lm ! 8)"
  by (simp_all add: finger_state_of_def finger_up_def euclidean_def hypot_def)

lemma classify_first_match:
  assumes "20 < length lm"
  shows "classify lm = Inr (first_match (finger_state_of lm))"
  unfolding classify_long [OF assms] first_match_unfold up_count_4 up_count_0
    finger_state_fields Let_def
  by (simp only: if_distrib [of Inr])

lemma first_match_labels: "first_match f \<in> set gesture_labels"
  by (simp add: first_match_unfold gesture_labels_def)

text \<open>The distance test without the square root, for evaluation.\<close>

lemma hypot_less_iff: "hypot a b < t \<longleftrightarrow> 0 < t \<and> a\<^sup>2 + b\<^sup>2 < t\<^sup>2"
proof (cases "0 < t")
  case True
  have "sqrt (a\<^sup>2 + b\<^sup>2) < t \<longleftrightarrow> sqrt (a\<^sup>2 + b\<^sup>2) < sqrt (t\<^sup>2)"
    using True by simp
  also have "\<dots> \<longleftrightarrow> a\<^sup>2 + b\<^sup>2 < t\<^sup>2"
    by (rule real_sqrt_less_iff)
  finally show ?thesis using True by (simp add: hypot_def)
next
  case False
  have "0 \<le> sqrt (a\<^sup>2 + b\<^sup>2)" by simp
  with False have "\<not> sqrt (a\<^sup>2 + b\<^sup>2) < t" by linarith
  with False show ?thesis by (simp add: hypot_def)
qed

lemma euclidean_less_iff:
  "euclidean p q < t \<longleftrightarrow> 0 < t \<and> (lm_x p - lm_x q)\<^sup>2 + (lm_y p - lm_y q)\<^sup>2 < t\<^sup>2"
  by (simp add: euclidean_def hypot_less_iff)

lemma length_hand [simp]: "length (hand f a b c d e g h i j k) = 21"
  by (simp add: hand_def)

lemma hand_nth:
  "hand f a b c d e g h i j k ! 3 = a"
  "hand f a b c d e g h i j k ! 4 = b"
  "hand f a b c d e g h i j k ! 6 = c"
  "hand f a b c d e g h i j k ! 8 = d"
  "hand f a b c d e g h i j k ! 10 = e"
  "hand f a b c d e g h i j k ! 12 = g"
  "hand f a b c d e g h i j k ! 14 = h"
  "hand f a b c d e g h i j k ! 16 = i"
  "hand f a b c d e g h i j k ! 18 = j"
  "hand f a b c d e g h i j k ! 20 = k"
  by (simp_all add: hand_def)

text \<open>
  C1. For every 21-landmark input, \<^verbatim>\<open>classify\<close> returns the label of the first matching
  rule of the priority list of the specification (OpenPalm, OkSign, Peace, Rock, LSign,
  ThumbsUp, Fist, and Unknown when none matches). In particular an input that satisfies
  the OpenPalm condition is classified OpenPalm whatever later rules it also satisfies.
  (The raw conditions of OpenPalm and Peace exclude each other, since Peace needs the
  ring finger down; the example is an open palm that also satisfies the OkSign rule.)
\<close>

theorem classify_priority_order:
  assumes "length lm = 21"
  shows "classify lm = Inr (first_match (finger_state_of lm)) \<and>
         (up_count (finger_state_of lm) = 4 \<and> thumb_up (finger_state_of lm)
            \<longrightarrow> classify lm = Inr ''OPEN_PALM'')"
  using assms by (simp add: classify_first_match first_match_unfold)

theorem classify_priority_order_witness:
  "length open_pinched_hand = 21 \<and>
   pinch_distance (finger_state_of open_pinched_hand) < DIST_OK_THRESHOLD \<and>
   up_count (finger_state_of open_pinched_hand) = 4 \<and>
   thumb_up (finger_state_of open_pinched_hand) \<and>
   classify open_pinched_hand = Inr ''OPEN_PALM''"
proof -
  have len: "length open_pinched_hand = 21"
    by (simp add: open_pinched_hand_def)
  have up: "up_count (finger_state_of open_pinched_hand) = 4"
    by (simp add: up_count_4 finger_state_fields finger_up_def open_pinched_hand_def
        hand_nth pt_def)
  have th: "thumb_up (finger_state_of open_pinched_hand)"
    by (simp add: finger_state_fields open_pinched_hand_def hand_nth pt_def)
  have pd: "pinch_distance (finger_state_of open_pinched_hand) < DIST_OK_THRESHOLD"
    unfolding finger_state_fields euclidean_less_iff
    by (simp add: open_pinched_hand_def hand_nth pt_def DIST_OK_THRESHOLD_def power2_eq_square)
  from classify_priority_order [OF len] up th
  have "classify open_pinched_hand = Inr ''OPEN_PALM''" by blast
  with len up th pd show ?thesis by blast
qed

lemma classify_fist_hand: "classify fist_hand = Inr ''FIST''"
proof -
  have "20 < length fist_hand" by (simp add: fist_hand_def)
  then show ?thesis
    unfolding classify_long [OF \<open>20 < length fist_hand\<close>] Let_def euclidean_less_iff
    by (simp add: fist_hand_def hand_nth pt_def finger_up_def DIST_OK_THRESHOLD_def
        power2_eq_square)
qed

lemma classify_take:
  assumes "20 < length lm"
  shows "classify lm = classify (take 21 lm)"
proof -
  have "20 < length (take 21 lm)" using assms by simp
  then show ?thesis
    unfolding classify_long [OF assms] classify_long [OF \<open>20 < length (take 21 lm)\<close>]
    by simp
qed

text \<open>
  C8. \<^verbatim>\<open>classify\<close> is total on 21-landmark inputs: it raises nothing and returns exactly
  one of the eight gesture labels. It is stateless and deterministic by construction:
  the source reads only its argument, the static helpers and the module constant
  \<^verbatim>\<open>DIST_OK_THRESHOLD\<close>, so its embedding is a function of the landmark list alone.
\<close>

theorem classify_total:
  assumes "length lm = 21"
  shows "\<exists>!g. classify lm = Inr g \<and> g \<in> set gesture_labels"
proof -
  have "classify lm = Inr (first_match (finger_state_of lm))"
    using assms by (simp add: classify_first_match)
  moreover have "first_match (finger_state_of lm) \<in> set gesture_labels"
    by (rule first_match_labels)
  ultimately show ?thesis by auto
qed

theorem classify_total_witness:
  "length fist_hand = 21 \<and> (\<exists>!g. classify fist_hand = Inr g \<and> g \<in> set gesture_labels)"
proof -
  have len: "length fist_hand = 21" by (simp add: fist_hand_def)
  from classify_total [OF len] len show ?thesis by blast
qed

text \<open>
  C9. The result of \<^verbatim>\<open>classify\<close> depends only on the landmarks at the indices 3, 4, 6,
  8, 10, 12, 14, 16, 18 and 20: two 21-landmark inputs that agree there get the same
  result.
\<close>

theorem classify_reads_ten_landmarks:
  assumes "length lm = 21" and "length lm' = 21"
    and "\<forall>i \<in> set [3, 4, 6, 8, 10, 12, 14, 16, 18, 20]. lm ! i = lm' ! i"
  shows "classify lm = classify lm'"
proof -
  have a: "20 < length lm" and b: "20 < length lm'" using assms by simp_all
  show ?thesis
    unfolding classify_long [OF a] classify_long [OF b]
    using assms(3) by simp
qed

text \<open>
  C4, as the code has it. \<^verbatim>\<open>classify\<close> checks no length. With fewer than 21 landmarks a
  lookup raises \<^verbatim>\<open>IndexError\<close>; with more than 21 the call returns the gesture of the
  first 21 landmarks and the others are ignored.
\<close>

theorem classify_wrong_count:
  assumes "length lm \<noteq> 21"
  shows "if length lm < 21 then classify lm = Inl IndexError
         else classify lm = classify (take 21 lm) \<and> (\<exists>g. classify lm = Inr g)"
proof (cases "length lm < 21")
  case True
  then show ?thesis by (simp add: classify_short)
next
  case False
  with assms have "20 < length lm" by simp
  with False show ?thesis
    using classify_take [of lm] by (simp add: classify_first_match)
qed

text \<open>
  C4 as stated fails: a 22-landmark input is classified as a fist, not rejected.
\<close>

theorem classify_extra_landmark_counterexample:
  "length (fist_hand @ [pt 0 0]) = 22 \<and> classify (fist_hand @ [pt 0 0]) = Inr ''FIST''"
proof -
  have len: "length (fist_hand @ [pt 0 0]) = 22" by (simp add: fist_hand_def)
  have "classify (fist_hand @ [pt 0 0]) = classify (take 21 (fist_hand @ [pt 0 0]))"
    by (rule classify_take) (simp add: fist_hand_def)
  also have "take 21 (fist_hand @ [pt 0 0]) = fist_hand" by (simp add: fist_hand_def)
  finally show ?thesis using len classify_fist_hand by simp
qed

theorem classify_wrong_count_witness:
  "length ([] :: landmark list) \<noteq> 21 \<and> classify [] = Inl IndexError \<and>
   length (fist_hand @ [pt 0 0]) \<noteq> 21 \<and>
   classify (fist_hand @ [pt 0 0]) = classify (take 21 (fist_hand @ [pt 0 0]))"
proof -
  have e: "length ([] :: landmark list) \<noteq> 21" by simp
  have l: "length (fist_hand @ [pt 0 0]) \<noteq> 21" by (simp add: fist_hand_def)
  have l2: "\<not> length (fist_hand @ [pt 0 0]) < 21" by (simp add: fist_hand_def)
  from classify_wrong_count [OF e] have 1: "classify [] = Inl IndexError" by simp
  from classify_wrong_count [OF l] l2
  have 2: "classify (fist_hand @ [pt 0 0]) = classify (take 21 (fist_hand @ [pt 0 0]))"
    by presburger
  from e l 1 2 show ?thesis by blast
qed

theorem classify_reads_ten_landmarks_witness:
  "hand (pt 0 0) (pt 0.4 0.6) (pt 0.45 0.6) (pt 0.5 0.4) (pt 0.5 0.5)
      (pt 0.55 0.4) (pt 0.55 0.5) (pt 0.6 0.4) (pt 0.6 0.5) (pt 0.65 0.4) (pt 0.65 0.5)
   \<noteq> fist_hand \<and>
   classify (hand (pt 0 0) (pt 0.4 0.6) (pt 0.45 0.6) (pt 0.5 0.4) (pt 0.5 0.5)
      (pt 0.55 0.4) (pt 0.55 0.5) (pt 0.6 0.4) (pt 0.6 0.5) (pt 0.65 0.4) (pt 0.65 0.5))
   = classify fist_hand"
proof -
  let ?h = "hand (pt 0 0) (pt 0.4 0.6) (pt 0.45 0.6) (pt 0.5 0.4) (pt 0.5 0.5)
      (pt 0.55 0.4) (pt 0.55 0.5) (pt 0.6 0.4) (pt 0.6 0.5) (pt 0.65 0.4) (pt 0.65 0.5)"
  have ne: "?h \<noteq> fist_hand" by (simp add: fist_hand_def hand_def pt_def)
  have "classify ?h = classify fist_hand"
    by (rule classify_reads_ten_landmarks) (simp_all add: fist_hand_def hand_nth)
  with ne show ?thesis by blast
qed

section \<open>Properties of the dispatcher\<close>

subsection \<open>The cooldown gate keeps the trace spaced\<close>

lemma cooldown_of_nonneg: "0 \<le> cooldown_of k"
  by (simp add: cooldown_of_def COOLDOWN_SHORT_def COOLDOWN_SCROLL_def COOLDOWN_MED_def)

lemma throttle_fires:
  "fst (throttle key cd s) \<longleftrightarrow> cd \<le> clock s (ticks s) - last_time s key"
  by (simp add: throttle_def Let_def last_time_def)

lemma throttle_trace: "trace (snd (throttle key cd s)) = trace s"
  by (simp add: throttle_def Let_def)

lemma throttle_last_times:
  "last_times (snd (throttle key cd s)) =
    (if cd \<le> clock s (ticks s) - last_time s key
     then (last_times s)(key \<mapsto> clock s (ticks s)) else last_times s)"
  by (simp add: throttle_def Let_def last_time_def)

lemma throttle_other_fields:
  "prev_mouse_x (snd (throttle key cd s)) = prev_mouse_x s"
  "prev_mouse_y (snd (throttle key cd s)) = prev_mouse_y s"
  "screen_w (snd (throttle key cd s)) = screen_w s"
  "screen_h (snd (throttle key cd s)) = screen_h s"
  "scroll_mode (snd (throttle key cd s)) = scroll_mode s"
  "last_index_y (snd (throttle key cd s)) = last_index_y s"
  "clock (snd (throttle key cd s)) = clock s"
  "ticks (snd (throttle key cd s)) = Suc (ticks s)"
  by (simp_all add: throttle_def Let_def)

lemma spaced_snoc:
  "spaced (tr @ [e]) \<longleftrightarrow> spaced tr \<and> (\<forall>a \<in> set tr. respects_cooldown a e)"
  by (simp add: spaced_def sorted_wrt_append)

lemma bounded_by_later:
  assumes "bounded_by lt e" and "(case lt key of None \<Rightarrow> 0 | Some u \<Rightarrow> u) \<le> now"
  shows "bounded_by (lt(key \<mapsto> now)) e"
  using assms by (auto simp: bounded_by_def split: option.splits)

lemma trace_ok_throttle:
  assumes "trace_ok s" and "0 \<le> cd"
  shows "trace_ok (snd (throttle key cd s))"
proof (cases "cd \<le> clock s (ticks s) - last_time s key")
  case True
  with assms(2) have "last_time s key \<le> clock s (ticks s)" by simp
  then have "\<And>e. bounded_by (last_times s) e \<Longrightarrow>
      bounded_by ((last_times s)(key \<mapsto> clock s (ticks s))) e"
    by (intro bounded_by_later) (simp_all add: last_time_def)
  then have "list_all (bounded_by ((last_times s)(key \<mapsto> clock s (ticks s)))) (trace s)"
    using assms(1) by (simp add: trace_ok_def list_all_iff)
  with assms(1) True show ?thesis
    by (simp add: trace_ok_def throttle_trace throttle_last_times)
next
  case False
  with assms(1) show ?thesis
    by (simp add: trace_ok_def throttle_trace throttle_last_times)
qed

lemma respects_new:
  assumes "bounded_by lt a" and "key_of c = Some key"
    and "cooldown_of key \<le> now - (case lt key of None \<Rightarrow> 0 | Some u \<Rightarrow> u)"
  shows "respects_cooldown a (Some now, c)"
  using assms by (auto simp: bounded_by_def respects_cooldown_def split: option.splits)

lemma trace_ok_throttle_emit:
  assumes ok: "trace_ok s" and key: "key_of c = Some key"
    and fires: "fst (throttle key (cooldown_of key) s)"
  shows "trace_ok (emit_gated key c (snd (throttle key (cooldown_of key) s)))"
proof -
  let ?now = "clock s (ticks s)"
  let ?s1 = "snd (throttle key (cooldown_of key) s)"
  from fires have gap: "cooldown_of key \<le> ?now - last_time s key"
    by (simp add: throttle_fires)
  have lt1: "last_times ?s1 = (last_times s)(key \<mapsto> ?now)"
    using gap by (simp add: throttle_last_times)
  have ok1: "trace_ok ?s1"
    using ok cooldown_of_nonneg by (rule trace_ok_throttle)
  have tr1: "trace ?s1 = trace s" by (rule throttle_trace)
  have new: "\<forall>a \<in> set (trace s). respects_cooldown a (Some ?now, c)"
  proof
    fix a assume "a \<in> set (trace s)"
    with ok have "bounded_by (last_times s) a" by (simp add: trace_ok_def list_all_iff)
    then show "respects_cooldown a (Some ?now, c)"
      by (rule respects_new [OF _ key]) (use gap in \<open>simp add: last_time_def\<close>)
  qed
  have stamp: "last_time ?s1 key = ?now" by (simp add: last_time_def lt1)
  have b: "bounded_by (last_times ?s1) (Some ?now, c)"
    by (simp add: bounded_by_def key lt1)
  show ?thesis
    using ok1 new b
    by (simp add: trace_ok_def emit_gated_def spaced_snoc stamp tr1)
qed

lemma gated_unfold:
  "gated key cd c s =
    (if fst (throttle key cd s) then emit_gated key c (snd (throttle key cd s))
     else snd (throttle key cd s))"
  by (auto simp: gated_def split: prod.splits bool.splits)

lemma trace_ok_gated:
  assumes "trace_ok s" and "key_of c = Some key"
  shows "trace_ok (gated key (cooldown_of key) c s)"
  using assms
  by (simp add: gated_unfold trace_ok_throttle_emit trace_ok_throttle cooldown_of_nonneg)

lemma cooldown_of_keys:
  "COOLDOWN_MED = cooldown_of ''click''"
  "COOLDOWN_MED = cooldown_of ''keyboard''"
  "COOLDOWN_MED = cooldown_of ''mute''"
  "COOLDOWN_SHORT = cooldown_of ''volume''"
  "COOLDOWN_SCROLL = cooldown_of ''scroll''"
  by (simp_all add: cooldown_of_def)

lemma trace_ok_fields:
  "trace_ok (s\<lparr>prev_mouse_x := a\<rparr>) = trace_ok s"
  "trace_ok (s\<lparr>prev_mouse_y := b\<rparr>) = trace_ok s"
  "trace_ok (s\<lparr>scroll_mode := m\<rparr>) = trace_ok s"
  "trace_ok (s\<lparr>last_index_y := y\<rparr>) = trace_ok s"
  by (simp_all add: trace_ok_def)

lemma trace_ok_emit:
  assumes "trace_ok s" and "key_of c = None"
  shows "trace_ok (emit c s)"
  using assms
  by (simp add: trace_ok_def emit_def spaced_snoc bounded_by_def respects_cooldown_def
      split: option.splits)

lemma trace_ok_mouse_move: "trace_ok s \<Longrightarrow> trace_ok (snd (mouse_move tip s))"
  by (simp add: mouse_move_def Let_def trace_ok_fields trace_ok_emit split: option.splits)

lemma trace_ok_left_click: "trace_ok s \<Longrightarrow> trace_ok (left_click thumb tip s)"
  by (simp add: left_click_def Let_def cooldown_of_keys(1) trace_ok_gated)

lemma trace_ok_right_click: "trace_ok s \<Longrightarrow> trace_ok (right_click g s)"
  by (simp add: right_click_def cooldown_of_keys(1) trace_ok_gated)

lemma trace_ok_volume_controls: "trace_ok s \<Longrightarrow> trace_ok (volume_controls g s)"
  by (simp add: volume_controls_def Let_def cooldown_of_keys(3,4) trace_ok_gated)

lemma perform_keyboard_shortcut_unfold:
  "perform_keyboard_shortcut g s =
    (let r = throttle ''keyboard'' (cooldown_of ''keyboard'') s in
     if fst r then
       if g = ''OK_SIGN'' then emit_gated ''keyboard'' (Hotkey ''ctrl'' ''c'') (snd r)
       else if g = ''L_SIGN'' then emit_gated ''keyboard'' (Hotkey ''ctrl'' ''v'') (snd r)
       else if g = ''PEACE'' then emit_gated ''keyboard'' (Hotkey ''ctrl'' ''s'') (snd r)
       else snd r
     else snd r)"
  unfolding perform_keyboard_shortcut_def cooldown_of_keys(2) [symmetric] Let_def
  by (cases "throttle ''keyboard'' COOLDOWN_MED s") (simp split: bool.splits)

lemma trace_ok_keyboard_shortcuts: "trace_ok s \<Longrightarrow> trace_ok (keyboard_shortcuts g s)"
  unfolding keyboard_shortcuts_def perform_keyboard_shortcut_unfold Let_def
  by (simp add: trace_ok_throttle_emit trace_ok_throttle cooldown_of_nonneg del: set_simps)

lemma scrolling_mode_unfold:
  "scrolling_mode g tip s =
    (if g = ''OPEN_PALM'' then
       if \<not> scroll_mode s
       then (None, s\<lparr>scroll_mode := True, last_index_y := Some (lm_y tip)\<rparr>)
       else
         case last_index_y s of
           None \<Rightarrow> (Some TypeError, s)
         | Some base \<Rightarrow>
             let dy = base - lm_y tip;
                 r = throttle ''scroll'' (cooldown_of ''scroll'') s;
                 s1 = (if \<bar>dy\<bar> > SCROLL_MIN_DELTA
                       then
                         if fst r then
                           if py_int (dy * SCROLL_SENSITIVITY) \<noteq> 0
                           then emit_gated ''scroll'' (Scroll (py_int (dy * SCROLL_SENSITIVITY))) (snd r)
                           else snd r
                         else snd r
                       else s)
             in (None, s1\<lparr>last_index_y := Some (base * 0.85 + lm_y tip * 0.15)\<rparr>)
     else
       if scroll_mode s
       then (None, s\<lparr>scroll_mode := False, last_index_y := None\<rparr>)
       else (None, s))"
  unfolding scrolling_mode_def cooldown_of_keys(5) [symmetric] Let_def
  by (cases "throttle ''scroll'' COOLDOWN_SCROLL s") (simp split: bool.splits option.splits)

lemma trace_ok_scrolling_mode: "trace_ok s \<Longrightarrow> trace_ok (snd (scrolling_mode g tip s))"
  unfolding scrolling_mode_unfold Let_def
  by (simp add: trace_ok_fields trace_ok_throttle_emit trace_ok_throttle cooldown_of_nonneg
      split: option.splits)

lemma trace_ok_frame:
  assumes "trace_ok s"
  shows "trace_ok (snd (frame obs s))"
proof (cases obs)
  case None
  with assms show ?thesis by (simp add: frame_def)
next
  case (Some lm)
  show ?thesis
  proof (cases "classify lm")
    case (Inl e)
    with Some assms show ?thesis by (simp add: frame_def)
  next
    case (Inr g)
    obtain e s1 where mm: "mouse_move (lm ! 8) s = (e, s1)"
      by (cases "mouse_move (lm ! 8) s")
    have ok1: "trace_ok s1"
      using trace_ok_mouse_move [OF assms, of "lm ! 8"] mm by simp
    show ?thesis
    proof (cases e)
      case None
      have "trace_ok (snd (scrolling_mode g (lm ! 8)
              (keyboard_shortcuts g (volume_controls g (right_click g
                (left_click (lm ! 4) (lm ! 8) s1))))))"
        by (intro trace_ok_scrolling_mode trace_ok_keyboard_shortcuts
            trace_ok_volume_controls trace_ok_right_click trace_ok_left_click ok1)
      with Some Inr mm None show ?thesis by (simp add: frame_def Let_def)
    next
      case (Some err)
      with \<open>obs = Some lm\<close> Inr mm ok1 show ?thesis by (simp add: frame_def Let_def)
    qed
  qed
qed

lemma trace_ok_run: "trace_ok s \<Longrightarrow> trace_ok (snd (run obs s))"
proof (induction obs arbitrary: s)
  case Nil
  then show ?case by simp
next
  case (Cons ob rest)
  obtain e s1 where f: "frame ob s = (e, s1)" by (cases "frame ob s")
  have ok1: "trace_ok s1" using trace_ok_frame [OF Cons.prems, of ob] f by simp
  show ?case
  proof (cases e)
    case None
    with f Cons.IH [OF ok1] show ?thesis by simp
  next
    case (Some err)
    with f ok1 show ?thesis by simp
  qed
qed

lemma trace_ok_initial: "trace_ok (initial w h clk)"
  by (simp add: trace_ok_def initial_def spaced_def)

lemma run_spaced: "spaced (trace (snd (run obs (initial w h clk))))"
  using trace_ok_run [OF trace_ok_initial] by (simp add: trace_ok_def)

subsection \<open>Evaluation rules for concrete frames\<close>

lemma classify_eval:
  assumes "20 < length lm"
  shows "classify lm =
   (let thumb_up = (lm_x (lm ! 4) < lm_x (lm ! 3));
        index_up = lm_y (lm ! 8) < lm_y (lm ! 6);
        middle_up = lm_y (lm ! 12) < lm_y (lm ! 10);
        ring_up = lm_y (lm ! 16) < lm_y (lm ! 14);
        pinky_up = lm_y (lm ! 20) < lm_y (lm ! 18);
        close = (lm_x (lm ! 4) - lm_x (lm ! 8))\<^sup>2 + (lm_y (lm ! 4) - lm_y (lm ! 8))\<^sup>2
                  < DIST_OK_THRESHOLD\<^sup>2
    in
      if (index_up \<and> middle_up \<and> ring_up \<and> pinky_up) \<and> thumb_up then Inr ''OPEN_PALM''
      else if close then Inr ''OK_SIGN''
      else if index_up \<and> middle_up \<and> \<not> ring_up \<and> \<not> pinky_up then Inr ''PEACE''
      else if index_up \<and> \<not> middle_up \<and> \<not> ring_up \<and> pinky_up then Inr ''ROCK''
      else if thumb_up \<and> index_up \<and> \<not> middle_up \<and> \<not> ring_up \<and> \<not> pinky_up
        then Inr ''L_SIGN''
      else if thumb_up \<and> \<not> index_up \<and> \<not> middle_up \<and> \<not> ring_up \<and> \<not> pinky_up
        then Inr ''THUMBS_UP''
      else if (\<not> index_up \<and> \<not> middle_up \<and> \<not> ring_up \<and> \<not> pinky_up) \<and> \<not> thumb_up
        then Inr ''FIST''
      else Inr ''UNKNOWN'')"
proof -
  have "0 < DIST_OK_THRESHOLD" by (simp add: DIST_OK_THRESHOLD_def)
  then show ?thesis
    unfolding classify_long [OF assms] Let_def euclidean_less_iff finger_up_def
    by (simp only: simp_thms)
qed

lemma hand_eval:
  "hand f a b c d e g h i j k ! 3 = a"
  "hand f a b c d e g h i j k ! 4 = b"
  "hand f a b c d e g h i j k ! 6 = c"
  "hand f a b c d e g h i j k ! 8 = d"
  "hand f a b c d e g h i j k ! 10 = e"
  "hand f a b c d e g h i j k ! 12 = g"
  "hand f a b c d e g h i j k ! 14 = h"
  "hand f a b c d e g h i j k ! 16 = i"
  "hand f a b c d e g h i j k ! 18 = j"
  "hand f a b c d e g h i j k ! 20 = k"
  "20 < length (hand f a b c d e g h i j k)"
  by (simp_all add: hand_def)

lemma classify_ok_hand: "classify ok_hand = Inr ''OK_SIGN''"
  unfolding ok_hand_def
  by (simp add: classify_eval hand_eval pt_def DIST_OK_THRESHOLD_def power2_eq_square)

lemma classify_l_pinch_hand: "classify l_pinch_hand = Inr ''L_SIGN''"
  unfolding l_pinch_hand_def
  by (simp add: classify_eval hand_eval pt_def DIST_OK_THRESHOLD_def power2_eq_square)

lemma classify_l_hand: "classify l_hand = Inr ''L_SIGN''"
  unfolding l_hand_def
  by (simp add: classify_eval hand_eval pt_def DIST_OK_THRESHOLD_def power2_eq_square)

lemma tips:
  "ok_hand ! 8 = pt 0.41 0.3" "ok_hand ! 4 = pt 0.4 0.3"
  "l_pinch_hand ! 8 = pt 0.4 0.363" "l_pinch_hand ! 4 = pt 0.4 0.4"
  "l_hand ! 8 = pt 0.4 0.3" "l_hand ! 4 = pt 0.4 0.4"
  by (simp_all add: ok_hand_def l_pinch_hand_def l_hand_def hand_eval)


lemma py_int_of_int [simp]: "py_int (real_of_int a) = a"
  by (simp add: py_int_def)

lemma mouse_move_first:
  assumes "prev_mouse_x s = None"
  shows "mouse_move tip s =
    (None, s\<lparr>prev_mouse_x := Some (py_int (lm_x tip * real_of_int (screen_w s))),
              prev_mouse_y := Some (py_int (lm_y tip * real_of_int (screen_h s))),
              trace := trace s @ [(None, MoveTo (py_int (lm_x tip * real_of_int (screen_w s)))
                                            (py_int (lm_y tip * real_of_int (screen_h s))))]\<rparr>)"
  using assms by (simp add: mouse_move_def Let_def emit_def)

lemma mouse_move_next:
  assumes "prev_mouse_x s = Some px" and "prev_mouse_y s = Some py"
  shows "mouse_move tip s =
    (None, s\<lparr>prev_mouse_x :=
                Some (py_int (real_of_int px +
                  (real_of_int (py_int (lm_x tip * real_of_int (screen_w s))) - real_of_int px) * SMOOTHING)),
              prev_mouse_y :=
                Some (py_int (real_of_int py +
                  (real_of_int (py_int (lm_y tip * real_of_int (screen_h s))) - real_of_int py) * SMOOTHING)),
              trace := trace s @
                [(None, MoveTo
                   (py_int (real_of_int px +
                     (real_of_int (py_int (lm_x tip * real_of_int (screen_w s))) - real_of_int px) * SMOOTHING))
                   (py_int (real_of_int py +
                     (real_of_int (py_int (lm_y tip * real_of_int (screen_h s))) - real_of_int py) * SMOOTHING)))]\<rparr>)"
  using assms by (simp add: mouse_move_def Let_def emit_def)

lemma gated_fires:
  assumes "cd \<le> clock s (ticks s) - last_time s key"
  shows "gated key cd c s =
    s\<lparr>last_times := (last_times s)(key \<mapsto> clock s (ticks s)), ticks := Suc (ticks s),
      trace := trace s @ [(Some (clock s (ticks s)), c)]\<rparr>"
  using assms by (simp add: gated_def throttle_def Let_def emit_gated_def last_time_def)

lemma gated_blocked:
  assumes "\<not> cd \<le> clock s (ticks s) - last_time s key"
  shows "gated key cd c s = s\<lparr>ticks := Suc (ticks s)\<rparr>"
  using assms by (simp add: gated_def throttle_def Let_def emit_gated_def last_time_def)



lemma py_int_numeral [simp]: "py_int (numeral n) = numeral n" "py_int 0 = 0" "py_int 1 = 1"
  by (simp_all add: py_int_def)

lemma left_click_eval:
  "left_click thumb_tip index_tip s =
    (if (lm_x thumb_tip - lm_x index_tip)\<^sup>2 + (lm_y thumb_tip - lm_y index_tip)\<^sup>2
          < PINCH_THRESHOLD\<^sup>2
     then gated ''click'' COOLDOWN_MED Click s else s)"
proof -
  have "0 < PINCH_THRESHOLD" by (simp add: PINCH_THRESHOLD_def)
  then show ?thesis by (simp add: left_click_def Let_def hypot_less_iff)
qed

lemma gated_eval:
  "gated key cd c s =
    (if cd \<le> clock s (ticks s) - last_time s key
     then s\<lparr>last_times := (last_times s)(key \<mapsto> clock s (ticks s)), ticks := Suc (ticks s),
            trace := trace s @ [(Some (clock s (ticks s)), c)]\<rparr>
     else s\<lparr>ticks := Suc (ticks s)\<rparr>)"
  by (simp add: gated_fires gated_blocked)

lemma perform_keyboard_shortcut_eval:
  "perform_keyboard_shortcut g s =
    (if COOLDOWN_MED \<le> clock s (ticks s) - last_time s ''keyboard''
     then
       (let s1 = s\<lparr>last_times := (last_times s)(''keyboard'' \<mapsto> clock s (ticks s)),
                   ticks := Suc (ticks s)\<rparr>
        in if g = ''OK_SIGN''
             then s1\<lparr>trace := trace s @ [(Some (clock s (ticks s)), Hotkey ''ctrl'' ''c'')]\<rparr>
           else if g = ''L_SIGN''
             then s1\<lparr>trace := trace s @ [(Some (clock s (ticks s)), Hotkey ''ctrl'' ''v'')]\<rparr>
           else if g = ''PEACE''
             then s1\<lparr>trace := trace s @ [(Some (clock s (ticks s)), Hotkey ''ctrl'' ''s'')]\<rparr>
           else s1)
     else s\<lparr>ticks := Suc (ticks s)\<rparr>)"
  by (simp add: perform_keyboard_shortcut_def throttle_def Let_def emit_gated_def last_time_def)

lemma scrolling_mode_eval:
  "scrolling_mode g tip s =
    (if g = ''OPEN_PALM'' then
       if \<not> scroll_mode s
       then (None, s\<lparr>scroll_mode := True, last_index_y := Some (lm_y tip)\<rparr>)
       else
         case last_index_y s of
           None \<Rightarrow> (Some TypeError, s)
         | Some base \<Rightarrow>
             (None,
               (if \<bar>base - lm_y tip\<bar> > SCROLL_MIN_DELTA
                then
                  if COOLDOWN_SCROLL \<le> clock s (ticks s) - last_time s ''scroll''
                  then
                    if py_int ((base - lm_y tip) * SCROLL_SENSITIVITY) \<noteq> 0
                    then s\<lparr>last_times := (last_times s)(''scroll'' \<mapsto> clock s (ticks s)),
                           ticks := Suc (ticks s),
                           trace := trace s @
                             [(Some (clock s (ticks s)),
                               Scroll (py_int ((base - lm_y tip) * SCROLL_SENSITIVITY)))]\<rparr>
                    else s\<lparr>last_times := (last_times s)(''scroll'' \<mapsto> clock s (ticks s)),
                           ticks := Suc (ticks s)\<rparr>
                  else s\<lparr>ticks := Suc (ticks s)\<rparr>
                else s)
               \<lparr>last_index_y := Some (base * 0.85 + lm_y tip * 0.15)\<rparr>)
     else
       if scroll_mode s
       then (None, s\<lparr>scroll_mode := False, last_index_y := None\<rparr>)
       else (None, s))"
  by (simp add: scrolling_mode_def throttle_def Let_def emit_gated_def last_time_def
      split: option.splits)

lemmas eval_rules = mouse_move_first mouse_move_next left_click_eval right_click_def
  volume_controls_def keyboard_shortcuts_def gated_eval perform_keyboard_shortcut_eval
  scrolling_mode_eval last_time_def Let_def

lemmas eval_consts = PINCH_THRESHOLD_def SMOOTHING_def COOLDOWN_MED_def COOLDOWN_SHORT_def
  COOLDOWN_SCROLL_def SCROLL_MIN_DELTA_def SCROLL_SENSITIVITY_def power2_eq_square


lemmas eval_frame = frame_def eval_rules eval_consts py_int_def pt_def initial_def

text \<open>
  C2. The cooldown gate: \<^verbatim>\<open>_throttle\<close> fires exactly when the clock reading is at least
  the cooldown after the time stored for the key; on firing it stores the reading for
  that key; it never changes the time stored for another key, and changes none when it
  does not fire. In every run from the initial state, two recorded calls of the same
  key are at least that key's cooldown apart.
\<close>

theorem cooldown_gate:
  "(fst (throttle key cd s) \<longleftrightarrow> cd \<le> clock s (ticks s) - last_time s key) \<and>
   (fst (throttle key cd s) \<longrightarrow> last_time (snd (throttle key cd s)) key = clock s (ticks s)) \<and>
   (\<not> fst (throttle key cd s) \<longrightarrow> last_times (snd (throttle key cd s)) = last_times s) \<and>
   (k \<noteq> key \<longrightarrow> last_times (snd (throttle key cd s)) k = last_times s k) \<and>
   spaced (trace (snd (run obs (initial w h clk))))"
  by (simp add: throttle_fires throttle_last_times last_time_def run_spaced)

theorem cooldown_gate_witness:
  "fst (throttle ''click'' COOLDOWN_MED (initial 1000 1000 clock_03)) \<and>
   last_time (snd (throttle ''click'' COOLDOWN_MED (initial 1000 1000 clock_03))) ''click'' = 100 \<and>
   last_times (snd (throttle ''click'' COOLDOWN_MED (initial 1000 1000 clock_03))) ''volume''
     = Some 0 \<and>
   trace (snd (run [Some ok_hand, Some ok_hand, Some ok_hand] (initial 1000 1000 clock_03))) =
     [(None, MoveTo 410 300), (Some 100, Click), (Some 100.3, Hotkey ''ctrl'' ''c''),
      (None, MoveTo 410 300),
      (None, MoveTo 410 300), (Some 101.2, Click), (Some 101.5, Hotkey ''ctrl'' ''c'')] \<and>
   spaced (trace (snd (run [Some ok_hand, Some ok_hand, Some ok_hand]
     (initial 1000 1000 clock_03))))"
proof -
  let ?s = "initial 1000 1000 clock_03"
  let ?obs = "[Some ok_hand, Some ok_hand, Some ok_hand]"
  note g = cooldown_gate [of "''click''" COOLDOWN_MED ?s "''volume''" ?obs 1000 1000 clock_03]
  have fires: "COOLDOWN_MED \<le> clock ?s (ticks ?s) - last_time ?s ''click''"
    by (simp add: initial_def clock_03_def last_time_def COOLDOWN_MED_def)
  have now: "clock ?s (ticks ?s) = 100"
    by (simp add: initial_def clock_03_def)
  have vol: "last_times ?s ''volume'' = Some 0"
    by (simp add: initial_def)
  have tr: "trace (snd (run ?obs ?s)) =
     [(None, MoveTo 410 300), (Some 100, Click), (Some 100.3, Hotkey ''ctrl'' ''c''),
      (None, MoveTo 410 300),
      (None, MoveTo 410 300), (Some 101.2, Click), (Some 101.5, Hotkey ''ctrl'' ''c'')]"
    by (simp add: classify_ok_hand tips eval_frame clock_03_def)
  from g fires now vol tr show ?thesis by simp
qed

lemma respects_clicks: "respects_cooldown a b \<Longrightarrow> clicks_apart a b"
  by (auto simp: respects_cooldown_def clicks_apart_def cooldown_of_def
      split: option.splits if_splits)

text \<open>
  C5. Left click and right click share the cooldown key \<^verbatim>\<open>click\<close>: in every run from the
  initial state, any two recorded clicks, left or right in either order, are at least
  \<^verbatim>\<open>COOLDOWN_MED\<close> apart.
\<close>

theorem clicks_share_cooldown:
  "sorted_wrt clicks_apart (trace (snd (run obs (initial w h clk))))"
  using run_spaced [of obs w h clk] unfolding spaced_def
  by (rule sorted_wrt_mono_rel [rotated]) (rule respects_clicks)

theorem clicks_share_cooldown_witness:
  "trace (snd (run [Some l_pinch_hand, Some l_hand] (initial 1000 1000 clock_05))) =
     [(None, MoveTo 400 363), (Some 100, Click), (Some 101, Hotkey ''ctrl'' ''v''),
      (None, MoveTo 400 347), (Some 101.5, RightClick), (Some 102, Hotkey ''ctrl'' ''v'')] \<and>
   sorted_wrt clicks_apart
     (trace (snd (run [Some l_pinch_hand, Some l_hand] (initial 1000 1000 clock_05))))"
proof -
  have "trace (snd (run [Some l_pinch_hand, Some l_hand] (initial 1000 1000 clock_05))) =
     [(None, MoveTo 400 363), (Some 100, Click), (Some 101, Hotkey ''ctrl'' ''v''),
      (None, MoveTo 400 347), (Some 101.5, RightClick), (Some 102, Hotkey ''ctrl'' ''v'')]"
    by (simp add: classify_l_pinch_hand classify_l_hand tips eval_frame clock_05_def)
  with clicks_share_cooldown [of "[Some l_pinch_hand, Some l_hand]" 1000 1000 clock_05]
  show ?thesis by simp
qed

subsection \<open>Well-formed states raise no TypeError\<close>

lemma gate_step_refl: "gate_step s s"
  by (simp add: gate_step_def)

lemma gate_step_trans [trans]: "gate_step s s1 \<Longrightarrow> gate_step s1 s2 \<Longrightarrow> gate_step s s2"
  by (simp add: gate_step_def)

lemma gate_step_gated: "gate_step s (gated key cd c s)"
  by (simp add: gated_eval gate_step_def)

lemma gate_step_left_click: "gate_step s (left_click thumb tip s)"
  by (simp add: left_click_eval gate_step_gated gate_step_refl)

lemma gate_step_right_click: "gate_step s (right_click g s)"
  by (simp add: right_click_def gate_step_gated gate_step_refl)

lemma gate_step_if:
  "gate_step s s1 \<Longrightarrow> gate_step s (if b then gated key cd c s1 else s1)"
  by (auto intro: gate_step_trans gate_step_gated)

lemma gate_step_volume_controls: "gate_step s (volume_controls g s)"
  unfolding volume_controls_def Let_def
  by (intro gate_step_if gate_step_refl)

lemma gate_step_throttle: "gate_step s (snd (throttle key cd s))"
  by (simp add: gate_step_def throttle_other_fields)

lemma gate_step_emit_gated: "gate_step s (emit_gated key c s)"
  by (simp add: gate_step_def emit_gated_def)

lemma gate_step_perform: "gate_step s (perform_keyboard_shortcut g s)"
  unfolding perform_keyboard_shortcut_unfold Let_def
  by (auto intro: gate_step_trans [OF gate_step_throttle gate_step_emit_gated]
      gate_step_throttle)

lemma gate_step_keyboard_shortcuts: "gate_step s (keyboard_shortcuts g s)"
  unfolding keyboard_shortcuts_def
  by (simp add: gate_step_perform gate_step_refl del: set_simps)

text \<open>The state that reaches the scrolling section.\<close>

lemma gate_step_sections:
  "gate_step s (keyboard_shortcuts g (volume_controls g (right_click g (left_click thumb tip s))))"
proof -
  have "gate_step s (left_click thumb tip s)" by (rule gate_step_left_click)
  also have "gate_step (left_click thumb tip s) (right_click g (left_click thumb tip s))"
    by (rule gate_step_right_click)
  also have "gate_step (right_click g (left_click thumb tip s))
      (volume_controls g (right_click g (left_click thumb tip s)))"
    by (rule gate_step_volume_controls)
  also have "gate_step (volume_controls g (right_click g (left_click thumb tip s)))
      (keyboard_shortcuts g (volume_controls g (right_click g (left_click thumb tip s))))"
    by (rule gate_step_keyboard_shortcuts)
  finally show ?thesis .
qed

lemma mouse_move_coherent:
  assumes "coherent s"
  shows "fst (mouse_move tip s) = None \<and> coherent (snd (mouse_move tip s)) \<and>
         scroll_mode (snd (mouse_move tip s)) = scroll_mode s \<and>
         last_index_y (snd (mouse_move tip s)) = last_index_y s \<and>
         screen_w (snd (mouse_move tip s)) = screen_w s \<and>
         screen_h (snd (mouse_move tip s)) = screen_h s"
proof (cases "prev_mouse_x s")
  case None
  with assms show ?thesis by (simp add: mouse_move_first coherent_def)
next
  case (Some px)
  with assms obtain py where "prev_mouse_y s = Some py" by (auto simp: coherent_def)
  with Some assms show ?thesis by (simp add: mouse_move_next coherent_def)
qed

lemma scrolling_mode_coherent:
  assumes "coherent s"
  shows "fst (scrolling_mode g tip s) = None \<and> coherent (snd (scrolling_mode g tip s)) \<and>
         prev_mouse_x (snd (scrolling_mode g tip s)) = prev_mouse_x s \<and>
         prev_mouse_y (snd (scrolling_mode g tip s)) = prev_mouse_y s \<and>
         screen_w (snd (scrolling_mode g tip s)) = screen_w s \<and>
         screen_h (snd (scrolling_mode g tip s)) = screen_h s"
proof (cases "last_index_y s")
  case None
  with assms have "\<not> scroll_mode s" by (simp add: coherent_def)
  with None assms show ?thesis
    unfolding scrolling_mode_unfold Let_def by (simp add: coherent_def)
next
  case (Some base)
  with assms show ?thesis
    unfolding scrolling_mode_unfold Let_def
    by (simp add: coherent_def throttle_other_fields emit_gated_def)
qed

text \<open>A frame with at least 21 landmarks, in terms of its sections.\<close>

lemma frame_sections:
  assumes "classify lm = Inr g" and "fst (mouse_move (lm ! 8) s) = None"
  shows "frame (Some lm) s =
    scrolling_mode g (lm ! 8)
      (keyboard_shortcuts g (volume_controls g (right_click g
        (left_click (lm ! 4) (lm ! 8) (snd (mouse_move (lm ! 8) s))))))"
  using assms by (cases "mouse_move (lm ! 8) s") (simp add: frame_def Let_def)

lemma coherent_gate_step: "coherent s \<Longrightarrow> gate_step s s' \<Longrightarrow> coherent s'"
  by (simp add: coherent_def gate_step_def)

lemma frame_coherent:
  assumes "coherent s" and "classify lm = Inr g"
  shows "fst (frame (Some lm) s) = None \<and> coherent (snd (frame (Some lm) s)) \<and>
         screen_w (snd (frame (Some lm) s)) = screen_w s \<and>
         screen_h (snd (frame (Some lm) s)) = screen_h s"
proof -
  let ?s1 = "snd (mouse_move (lm ! 8) s)"
  let ?s5 = "keyboard_shortcuts g (volume_controls g (right_click g
        (left_click (lm ! 4) (lm ! 8) ?s1)))"
  note mm = mouse_move_coherent [OF assms(1), of "lm ! 8"]
  have gs: "gate_step ?s1 ?s5" by (rule gate_step_sections)
  with mm have c5: "coherent ?s5" by (blast intro: coherent_gate_step)
  have fr: "frame (Some lm) s = scrolling_mode g (lm ! 8) ?s5"
    using assms(2) mm by (simp add: frame_sections)
  from scrolling_mode_coherent [OF c5, of g "lm ! 8"] gs mm show ?thesis
    by (simp add: fr gate_step_def)
qed

lemma coherent_initial: "coherent (initial w h clk)"
  by (simp add: coherent_def initial_def)

subsection \<open>The scroll state machine\<close>

lemma classify_open_hand_a: "classify open_hand_a = Inr ''OPEN_PALM''"
  unfolding open_hand_a_def
  by (simp add: classify_eval hand_eval pt_def DIST_OK_THRESHOLD_def power2_eq_square)

lemma classify_open_hand_b: "classify open_hand_b = Inr ''OPEN_PALM''"
  unfolding open_hand_b_def
  by (simp add: classify_eval hand_eval pt_def DIST_OK_THRESHOLD_def power2_eq_square)

lemma classify_point_hand_a: "classify point_hand_a = Inr ''UNKNOWN''"
  unfolding point_hand_a_def
  by (simp add: classify_eval hand_eval pt_def DIST_OK_THRESHOLD_def power2_eq_square)

lemma classify_point_hand_b: "classify point_hand_b = Inr ''UNKNOWN''"
  unfolding point_hand_b_def
  by (simp add: classify_eval hand_eval pt_def DIST_OK_THRESHOLD_def power2_eq_square)

lemma more_tips:
  "open_hand_a ! 8 = pt 0.4 0.5" "open_hand_a ! 4 = pt 0.2 0.6"
  "open_hand_b ! 8 = pt 0.4 0.4945" "open_hand_b ! 4 = pt 0.2 0.6"
  "point_hand_a ! 8 = pt 0.9345703125 0.5" "point_hand_a ! 4 = pt 0.6 0.6"
  "point_hand_b ! 8 = pt 0.9375 0.5" "point_hand_b ! 4 = pt 0.6 0.6"
  "fist_hand ! 8 = pt 0.5 0.5" "fist_hand ! 4 = pt 0.45 0.6"
  by (simp_all add: open_hand_a_def open_hand_b_def point_hand_a_def point_hand_b_def
      fist_hand_def hand_eval)

text \<open>
  C3, as the code has it. A frame without a hand changes nothing and records no call:
  the scroll section lies inside the branch for an observed hand, so scroll mode and the
  baseline persist. On a frame with a hand whose gesture is not OPEN_PALM, the scroll mode
  is off afterwards, and the baseline is cleared if the scroll mode was on.
\<close>

theorem scroll_exit:
  assumes "coherent s" and "classify lm = Inr g" and "g \<noteq> ''OPEN_PALM''"
  shows "frame None s = (None, s) \<and>
         fst (frame (Some lm) s) = None \<and>
         \<not> scroll_mode (snd (frame (Some lm) s)) \<and>
         (if scroll_mode s then last_index_y (snd (frame (Some lm) s)) = None
          else last_index_y (snd (frame (Some lm) s)) = last_index_y s)"
proof -
  let ?s1 = "snd (mouse_move (lm ! 8) s)"
  let ?s5 = "keyboard_shortcuts g (volume_controls g (right_click g
        (left_click (lm ! 4) (lm ! 8) ?s1)))"
  note mm = mouse_move_coherent [OF assms(1), of "lm ! 8"]
  have gs: "gate_step ?s1 ?s5" by (rule gate_step_sections)
  have fr: "frame (Some lm) s = scrolling_mode g (lm ! 8) ?s5"
    using assms(2) mm by (simp add: frame_sections)
  have sm: "scroll_mode ?s5 = scroll_mode s" and ly: "last_index_y ?s5 = last_index_y s"
    using gs mm by (simp_all add: gate_step_def)
  have "frame None s = (None, s)" by (simp add: frame_def)
  moreover have "fst (frame (Some lm) s) = None"
    using frame_coherent [OF assms(1,2)] by simp
  moreover have "\<not> scroll_mode (snd (frame (Some lm) s))"
    using assms(3) sm by (simp add: fr scrolling_mode_def)
  moreover have "if scroll_mode s then last_index_y (snd (frame (Some lm) s)) = None
          else last_index_y (snd (frame (Some lm) s)) = last_index_y s"
    using assms(3) sm ly by (simp add: fr scrolling_mode_def)
  ultimately show ?thesis by blast
qed

text \<open>
  C3 as stated fails: after an open palm has started scroll mode, a frame without a hand
  leaves scroll mode on and the baseline in place.
\<close>

theorem no_hand_keeps_scrolling_counterexample:
  "scroll_mode (snd (run [Some open_hand_a, None] (initial 1000 1000 clock_05))) \<and>
   last_index_y (snd (run [Some open_hand_a, None] (initial 1000 1000 clock_05))) = Some 0.5"
  by (simp add: classify_open_hand_a more_tips eval_frame)

theorem scroll_exit_witness:
  "coherent (snd (run [Some open_hand_a] (initial 1000 1000 clock_05))) \<and>
   scroll_mode (snd (run [Some open_hand_a] (initial 1000 1000 clock_05))) \<and>
   classify fist_hand = Inr ''FIST'' \<and>
   frame None (snd (run [Some open_hand_a] (initial 1000 1000 clock_05))) =
     (None, snd (run [Some open_hand_a] (initial 1000 1000 clock_05))) \<and>
   \<not> scroll_mode (snd (frame (Some fist_hand)
        (snd (run [Some open_hand_a] (initial 1000 1000 clock_05))))) \<and>
   last_index_y (snd (frame (Some fist_hand)
        (snd (run [Some open_hand_a] (initial 1000 1000 clock_05))))) = None"
proof -
  let ?s = "snd (run [Some open_hand_a] (initial 1000 1000 clock_05))"
  have c: "coherent ?s"
    by (simp add: classify_open_hand_a more_tips eval_frame coherent_def)
  have m: "scroll_mode ?s"
    by (simp add: classify_open_hand_a more_tips eval_frame)
  have g: "''FIST'' \<noteq> ''OPEN_PALM''" by simp
  from scroll_exit [OF c classify_fist_hand g] m c classify_fist_hand
  show ?thesis by simp
qed

subsection \<open>OK sign: click and copy in one frame\<close>

lemma classify_ok_sign_close:
  assumes "classify lm = Inr ''OK_SIGN''"
  shows "20 < length lm \<and> euclidean (lm ! 4) (lm ! 8) < DIST_OK_THRESHOLD"
proof -
  have len: "20 < length lm"
  proof (rule ccontr)
    assume "\<not> 20 < length lm"
    then have "classify lm = Inl IndexError" by (simp add: classify_short)
    with assms show False by simp
  qed
  from assms have "euclidean (lm ! 4) (lm ! 8) < DIST_OK_THRESHOLD"
    unfolding classify_long [OF len] Let_def by (simp split: if_splits)
  with len show ?thesis by simp
qed

lemma mouse_move_trace:
  assumes "coherent s"
  shows "\<exists>a b. trace (snd (mouse_move tip s)) = trace s @ [(None, MoveTo a b)] \<and>
           last_times (snd (mouse_move tip s)) = last_times s \<and>
           ticks (snd (mouse_move tip s)) = ticks s \<and>
           clock (snd (mouse_move tip s)) = clock s"
proof (cases "prev_mouse_x s")
  case None
  then show ?thesis by (simp add: mouse_move_first)
next
  case (Some px)
  with assms obtain py where "prev_mouse_y s = Some py" by (auto simp: coherent_def)
  with Some show ?thesis by (simp add: mouse_move_next)
qed

text \<open>
  C10. The OK-sign threshold is below the pinch threshold, so a frame classified OK_SIGN
  also satisfies the pinch condition of the left click. On such a frame, from a
  well-formed state, if the clock reading of the click gate is at least the click
  cooldown after the last click and the next reading is at least the keyboard cooldown
  after the last shortcut, the frame records the pointer move, then a left click, then
  the copy shortcut Ctrl+C, and nothing else.
\<close>

theorem ok_sign_clicks_and_copies:
  assumes "classify lm = Inr ''OK_SIGN''" and "coherent s"
    and "COOLDOWN_MED \<le> clock s (ticks s) - last_time s ''click''"
    and "COOLDOWN_MED \<le> clock s (Suc (ticks s)) - last_time s ''keyboard''"
  shows "DIST_OK_THRESHOLD < PINCH_THRESHOLD \<and>
         euclidean (lm ! 4) (lm ! 8) < PINCH_THRESHOLD \<and>
         fst (frame (Some lm) s) = None \<and>
         (\<exists>a b. trace (snd (frame (Some lm) s)) =
            trace s @ [(None, MoveTo a b), (Some (clock s (ticks s)), Click),
                       (Some (clock s (Suc (ticks s))), Hotkey ''ctrl'' ''c'')])"
proof -
  let ?s1 = "snd (mouse_move (lm ! 8) s)"
  have th: "DIST_OK_THRESHOLD < PINCH_THRESHOLD"
    by (simp add: DIST_OK_THRESHOLD_def PINCH_THRESHOLD_def)
  from classify_ok_sign_close [OF assms(1)]
  have close: "euclidean (lm ! 4) (lm ! 8) < DIST_OK_THRESHOLD" by simp
  with th have pinch: "euclidean (lm ! 4) (lm ! 8) < PINCH_THRESHOLD" by simp
  note mm = mouse_move_coherent [OF assms(2), of "lm ! 8"]
  from mouse_move_trace [OF assms(2), of "lm ! 8"]
  obtain a b where tr1: "trace ?s1 = trace s @ [(None, MoveTo a b)]"
    and lt1: "last_times ?s1 = last_times s" and tk1: "ticks ?s1 = ticks s"
    and ck1: "clock ?s1 = clock s"
    by blast
  have fr: "frame (Some lm) s =
    scrolling_mode ''OK_SIGN'' (lm ! 8)
      (keyboard_shortcuts ''OK_SIGN'' (volume_controls ''OK_SIGN'' (right_click ''OK_SIGN''
        (left_click (lm ! 4) (lm ! 8) ?s1))))"
    using assms(1) mm by (simp add: frame_sections)
  have lc: "left_click (lm ! 4) (lm ! 8) ?s1 =
      ?s1\<lparr>last_times := (last_times s)(''click'' \<mapsto> clock s (ticks s)),
           ticks := Suc (ticks s),
           trace := trace s @ [(None, MoveTo a b), (Some (clock s (ticks s)), Click)]\<rparr>"
    using pinch assms(3)
    by (simp add: left_click_def Let_def euclidean_def gated_eval last_time_def tr1 lt1 tk1 ck1)
  have tr: "trace (snd (frame (Some lm) s)) =
      trace s @ [(None, MoveTo a b), (Some (clock s (ticks s)), Click),
                 (Some (clock s (Suc (ticks s))), Hotkey ''ctrl'' ''c'')]"
    using assms(4)
    by (simp add: fr lc right_click_def volume_controls_def keyboard_shortcuts_def
        perform_keyboard_shortcut_eval scrolling_mode_eval last_time_def ck1)
  have "fst (frame (Some lm) s) = None"
    using frame_coherent [OF assms(2,1)] by simp
  with th pinch tr show ?thesis by blast
qed

theorem ok_sign_clicks_and_copies_witness:
  "classify ok_hand = Inr ''OK_SIGN'' \<and> coherent (initial 1000 1000 clock_03) \<and>
   euclidean (ok_hand ! 4) (ok_hand ! 8) < PINCH_THRESHOLD \<and>
   fst (frame (Some ok_hand) (initial 1000 1000 clock_03)) = None \<and>
   trace (snd (frame (Some ok_hand) (initial 1000 1000 clock_03))) =
     [(None, MoveTo 410 300), (Some 100, Click), (Some 100.3, Hotkey ''ctrl'' ''c'')]"
proof -
  let ?s = "initial 1000 1000 clock_03"
  have g1: "COOLDOWN_MED \<le> clock ?s (ticks ?s) - last_time ?s ''click''"
    by (simp add: initial_def clock_03_def last_time_def COOLDOWN_MED_def)
  have g2: "COOLDOWN_MED \<le> clock ?s (Suc (ticks ?s)) - last_time ?s ''keyboard''"
    by (simp add: initial_def clock_03_def last_time_def COOLDOWN_MED_def)
  have tr: "trace (snd (frame (Some ok_hand) ?s)) =
     [(None, MoveTo 410 300), (Some 100, Click), (Some 100.3, Hotkey ''ctrl'' ''c'')]"
    by (simp add: classify_ok_hand tips eval_frame clock_03_def)
  from ok_sign_clicks_and_copies [OF classify_ok_hand coherent_initial g1 g2] tr
    classify_ok_hand coherent_initial
  show ?thesis by simp
qed

subsection \<open>Scrolling\<close>

lemma py_int_pos: "1 \<le> z \<Longrightarrow> 0 < py_int z"
  by (simp add: py_int_def)

lemma py_int_neg: "z \<le> - 1 \<Longrightarrow> py_int z < 0"
  by (simp add: py_int_def)

lemma scroll_amount_sign:
  assumes "\<bar>dy\<bar> > SCROLL_MIN_DELTA"
  shows "py_int (dy * SCROLL_SENSITIVITY) \<noteq> 0 \<and>
         (0 < dy \<longleftrightarrow> 0 < py_int (dy * SCROLL_SENSITIVITY)) \<and>
         (dy < 0 \<longleftrightarrow> py_int (dy * SCROLL_SENSITIVITY) < 0)"
proof (cases "0 < dy")
  case True
  with assms have "1 \<le> dy * SCROLL_SENSITIVITY"
    by (simp add: SCROLL_MIN_DELTA_def SCROLL_SENSITIVITY_def)
  then have "0 < py_int (dy * SCROLL_SENSITIVITY)" by (rule py_int_pos)
  with True show ?thesis by simp
next
  case False
  with assms have neg: "dy < 0" by (simp add: SCROLL_MIN_DELTA_def)
  with assms have "dy * SCROLL_SENSITIVITY \<le> - 1"
    by (simp add: SCROLL_MIN_DELTA_def SCROLL_SENSITIVITY_def)
  then have "py_int (dy * SCROLL_SENSITIVITY) < 0" by (rule py_int_neg)
  with neg show ?thesis by simp
qed

text \<open>
  C6, as the code has it. In scroll mode with an open palm, let dy be the baseline
  minus the height of the index tip. The baseline becomes 0.85 times the baseline plus
  0.15 times the height, whether or not a scroll is recorded. If the magnitude of dy
  exceeds \<^verbatim>\<open>SCROLL_MIN_DELTA\<close> and the scroll gate fires, one scroll is recorded, by
  \<^verbatim>\<open>int(dy * SCROLL_SENSITIVITY)\<close>, the product truncated toward zero; this amount has the
  sign of dy and is never zero. Otherwise nothing is recorded.
\<close>

theorem scrolling_frame:
  assumes "scroll_mode s" and "last_index_y s = Some base"
  shows "\<exists>s'. scrolling_mode ''OPEN_PALM'' tip s = (None, s') \<and>
           scroll_mode s' \<and>
           last_index_y s' = Some (base * 0.85 + lm_y tip * 0.15) \<and>
           (if \<bar>base - lm_y tip\<bar> > SCROLL_MIN_DELTA \<and>
               COOLDOWN_SCROLL \<le> clock s (ticks s) - last_time s ''scroll''
            then trace s' = trace s @
                   [(Some (clock s (ticks s)),
                     Scroll (py_int ((base - lm_y tip) * SCROLL_SENSITIVITY)))] \<and>
                 py_int ((base - lm_y tip) * SCROLL_SENSITIVITY) \<noteq> 0 \<and>
                 (0 < base - lm_y tip \<longleftrightarrow>
                    0 < py_int ((base - lm_y tip) * SCROLL_SENSITIVITY))
            else trace s' = trace s)"
proof (cases "\<bar>base - lm_y tip\<bar> > SCROLL_MIN_DELTA")
  case True
  note sg = scroll_amount_sign [OF True]
  with True assms show ?thesis by (simp add: scrolling_mode_eval)
next
  case False
  with assms show ?thesis by (simp add: scrolling_mode_eval)
qed

text \<open>
  C6 as stated fails: with baseline 0.5 and the index tip at 0.4945, dy times the
  sensitivity is 4.95; the recorded scroll is by 4, while the rounded magnitude is 5.
\<close>

theorem scroll_truncates_counterexample:
  "trace (snd (run [Some open_hand_a, Some open_hand_b] (initial 1000 1000 clock_05))) =
     [(None, MoveTo 400 500), (None, MoveTo 400 498), (Some 100, Scroll 4)] \<and>
   round ((0.5 - 0.4945) * SCROLL_SENSITIVITY) = 5"
  by (simp add: classify_open_hand_a classify_open_hand_b more_tips eval_frame clock_05_def
      round_def)

theorem scrolling_frame_witness:
  "scroll_mode (snd (run [Some open_hand_a] (initial 1000 1000 clock_05))) \<and>
   last_index_y (snd (run [Some open_hand_a] (initial 1000 1000 clock_05))) = Some 0.5 \<and>
   (\<exists>s'. scrolling_mode ''OPEN_PALM'' (pt 0.4 0.4945)
            (snd (run [Some open_hand_a] (initial 1000 1000 clock_05))) = (None, s') \<and>
         last_index_y s' = Some 0.499175 \<and>
         trace s' = [(None, MoveTo 400 500), (Some 100, Scroll 4)])"
proof -
  let ?s = "snd (run [Some open_hand_a] (initial 1000 1000 clock_05))"
  have m: "scroll_mode ?s"
    by (simp add: classify_open_hand_a more_tips eval_frame)
  have b: "last_index_y ?s = Some 0.5"
    by (simp add: classify_open_hand_a more_tips eval_frame)
  have t: "trace ?s = [(None, MoveTo 400 500)]"
    by (simp add: classify_open_hand_a more_tips eval_frame)
  have g: "clock ?s (ticks ?s) = 100 \<and> last_time ?s ''scroll'' = 0"
    by (simp add: classify_open_hand_a more_tips eval_frame clock_05_def)
  from scrolling_frame [OF m b, of "pt 0.4 0.4945"] t g
  have "\<exists>s'. scrolling_mode ''OPEN_PALM'' (pt 0.4 0.4945) ?s = (None, s') \<and>
         scroll_mode s' \<and> last_index_y s' = Some 0.499175 \<and>
         trace s' = [(None, MoveTo 400 500), (Some 100, Scroll 4)]"
    by (simp add: pt_def eval_consts py_int_def del: run.simps)
  with m b show ?thesis by blast
qed

subsection \<open>Pointer smoothing\<close>

lemma SMOOTHING_quarter: "SMOOTHING = 1 / 4"
  by (simp add: SMOOTHING_def)

lemma smooth_same [simp]: "smooth t t = t"
  by (simp add: smooth_def)

text \<open>Truncation toward zero stays between integer bounds.\<close>

lemma py_int_between:
  assumes "real_of_int a \<le> z" and "z \<le> real_of_int b"
  shows "a \<le> py_int z \<and> py_int z \<le> b"
proof -
  have lo: "a \<le> \<lfloor>z\<rfloor>" using assms(1) by (simp add: le_floor_iff)
  have hi: "\<lceil>z\<rceil> \<le> b" using assms(2) by (simp add: ceiling_le_iff)
  have "\<lfloor>z\<rfloor> \<le> \<lceil>z\<rceil>" by (rule floor_le_ceiling)
  with lo hi have "\<lfloor>z\<rfloor> \<le> b" and "a \<le> \<lceil>z\<rceil>" by linarith+
  with lo hi show ?thesis by (simp add: py_int_def)
qed

text \<open>One smoothing step moves toward the target, by at least one pixel while the
  distance is four or more.\<close>

lemma smooth_up:
  assumes "p \<le> t"
  shows "p \<le> smooth t p \<and> smooth t p \<le> t \<and> (4 \<le> t - p \<longrightarrow> p + 1 \<le> smooth t p)"
proof -
  let ?z = "real_of_int p + (real_of_int t - real_of_int p) * SMOOTHING"
  have r: "real_of_int p \<le> real_of_int t" using assms by simp
  have lo: "real_of_int p \<le> ?z" using r by (simp add: SMOOTHING_quarter field_simps)
  have hi: "?z \<le> real_of_int t" using r by (simp add: SMOOTHING_quarter field_simps)
  from py_int_between [OF lo hi] have a: "p \<le> smooth t p \<and> smooth t p \<le> t"
    by (simp add: smooth_def)
  have "4 \<le> t - p \<longrightarrow> p + 1 \<le> smooth t p"
  proof
    assume "4 \<le> t - p"
    then have "4 \<le> real_of_int t - real_of_int p" by linarith
    then have "real_of_int (p + 1) \<le> ?z" by (simp add: SMOOTHING_quarter field_simps)
    from py_int_between [OF this hi] show "p + 1 \<le> smooth t p" by (simp add: smooth_def)
  qed
  with a show ?thesis by simp
qed

lemma smooth_down:
  assumes "t \<le> p"
  shows "t \<le> smooth t p \<and> smooth t p \<le> p \<and> (4 \<le> p - t \<longrightarrow> smooth t p \<le> p - 1)"
proof -
  let ?z = "real_of_int p + (real_of_int t - real_of_int p) * SMOOTHING"
  have r: "real_of_int t \<le> real_of_int p" using assms by simp
  have lo: "real_of_int t \<le> ?z" using r by (simp add: SMOOTHING_quarter field_simps)
  have hi: "?z \<le> real_of_int p" using r by (simp add: SMOOTHING_quarter field_simps)
  from py_int_between [OF lo hi] have a: "t \<le> smooth t p \<and> smooth t p \<le> p"
    by (simp add: smooth_def)
  have "4 \<le> p - t \<longrightarrow> smooth t p \<le> p - 1"
  proof
    assume "4 \<le> p - t"
    then have "4 \<le> real_of_int p - real_of_int t" by linarith
    then have "?z \<le> real_of_int (p - 1)" by (simp add: SMOOTHING_quarter field_simps)
    from py_int_between [OF lo this] show "smooth t p \<le> p - 1" by (simp add: smooth_def)
  qed
  with a show ?thesis by simp
qed

lemma smooth_closer: "\<bar>t - smooth t p\<bar> \<le> max 3 (\<bar>t - p\<bar> - 1)"
proof (cases "p \<le> t")
  case True
  from smooth_up [OF True] show ?thesis by linarith
next
  case False
  then have "t \<le> p" by simp
  from smooth_down [OF this] show ?thesis by linarith
qed

lemma smooth_iterate: "\<bar>t - (smooth t ^^ n) p\<bar> \<le> max 3 (\<bar>t - p\<bar> - int n)"
proof (induction n)
  case 0
  then show ?case by simp
next
  case (Suc n)
  have "\<bar>t - smooth t ((smooth t ^^ n) p)\<bar> \<le> max 3 (\<bar>t - (smooth t ^^ n) p\<bar> - 1)"
    by (rule smooth_closer)
  with Suc show ?case by simp
qed

lemma mouse_move_first_smooth:
  assumes "prev_mouse_x s = None"
    and "tx = py_int (lm_x tip * real_of_int (screen_w s))"
    and "ty = py_int (lm_y tip * real_of_int (screen_h s))"
  shows "mouse_move tip s =
    (None, s\<lparr>prev_mouse_x := Some tx, prev_mouse_y := Some ty,
              trace := trace s @ [(None, MoveTo tx ty)]\<rparr>)"
  using assms by (simp add: mouse_move_first)

lemma mouse_move_next_smooth:
  assumes "prev_mouse_x s = Some px" and "prev_mouse_y s = Some py"
    and "tx = py_int (lm_x tip * real_of_int (screen_w s))"
    and "ty = py_int (lm_y tip * real_of_int (screen_h s))"
  shows "mouse_move tip s =
    (None, s\<lparr>prev_mouse_x := Some (smooth tx px), prev_mouse_y := Some (smooth ty py),
              trace := trace s @ [(None, MoveTo (smooth tx px) (smooth ty py))]\<rparr>)"
  using assms by (simp add: mouse_move_next smooth_def)

text \<open>The sections after mouse move leave the smoothed position alone.\<close>

lemma frame_pointer:
  assumes "coherent s" and "classify lm = Inr g"
  shows "prev_mouse_x (snd (frame (Some lm) s)) = prev_mouse_x (snd (mouse_move (lm ! 8) s)) \<and>
         prev_mouse_y (snd (frame (Some lm) s)) = prev_mouse_y (snd (mouse_move (lm ! 8) s))"
proof -
  let ?s1 = "snd (mouse_move (lm ! 8) s)"
  let ?s5 = "keyboard_shortcuts g (volume_controls g (right_click g
        (left_click (lm ! 4) (lm ! 8) ?s1)))"
  note mm = mouse_move_coherent [OF assms(1), of "lm ! 8"]
  have gs: "gate_step ?s1 ?s5" by (rule gate_step_sections)
  with mm have c5: "coherent ?s5" by (blast intro: coherent_gate_step)
  have fr: "frame (Some lm) s = scrolling_mode g (lm ! 8) ?s5"
    using assms(2) mm by (simp add: frame_sections)
  from scrolling_mode_coherent [OF c5, of g "lm ! 8"] gs show ?thesis
    by (simp add: fr gate_step_def)
qed

lemma run_same_frame:
  assumes "classify lm = Inr g"
  shows "coherent s \<Longrightarrow> prev_mouse_x s = Some px \<Longrightarrow> prev_mouse_y s = Some py \<Longrightarrow>
    tx = py_int (lm_x (lm ! 8) * real_of_int (screen_w s)) \<Longrightarrow>
    ty = py_int (lm_y (lm ! 8) * real_of_int (screen_h s)) \<Longrightarrow>
    fst (run (replicate n (Some lm)) s) = None \<and>
    prev_mouse_x (snd (run (replicate n (Some lm)) s)) = Some ((smooth tx ^^ n) px) \<and>
    prev_mouse_y (snd (run (replicate n (Some lm)) s)) = Some ((smooth ty ^^ n) py)"
proof (induction n arbitrary: s px py)
  case 0
  then show ?case by simp
next
  case (Suc n)
  let ?s' = "snd (frame (Some lm) s)"
  note fc = frame_coherent [OF Suc.prems(1) assms]
  note fp = frame_pointer [OF Suc.prems(1) assms]
  note mm = mouse_move_next_smooth [OF Suc.prems(2,3,4,5)]
  have px': "prev_mouse_x ?s' = Some (smooth tx px)" using fp mm by simp
  have py': "prev_mouse_y ?s' = Some (smooth ty py)" using fp mm by simp
  have tx': "tx = py_int (lm_x (lm ! 8) * real_of_int (screen_w ?s'))"
    using fc Suc.prems(4) by simp
  have ty': "ty = py_int (lm_y (lm ! 8) * real_of_int (screen_h ?s'))"
    using fc Suc.prems(5) by simp
  from fc have c': "coherent ?s'" by simp
  note ih = Suc.IH [OF c' px' py' tx' ty']
  have r: "run (replicate (Suc n) (Some lm)) s = run (replicate n (Some lm)) ?s'"
    using fc by (cases "frame (Some lm) s") simp
  show ?case unfolding r using ih by (simp add: funpow_swap1)
qed


text \<open>
  C7, as the code has it. The target is the index tip times the screen size, each
  coordinate truncated toward zero by \<^verbatim>\<open>int()\<close>. On the first observed frame the
  smoothed position is set to the target and the target is what \<^verbatim>\<open>moveTo\<close> receives. On
  later frames each coordinate becomes \<^verbatim>\<open>int(prev + (target - prev) * SMOOTHING)\<close>, again
  truncated. Feeding the same hand for n frames brings each coordinate of the smoothed
  position to a distance from the target of at most 3 pixels, or the initial distance
  minus n if that is larger; it need not come closer than 3 pixels.
\<close>

theorem pointer_smoothing:
  assumes "coherent s" and "classify lm = Inr g"
    and "tx = py_int (lm_x (lm ! 8) * real_of_int (screen_w s))"
    and "ty = py_int (lm_y (lm ! 8) * real_of_int (screen_h s))"
  shows "(prev_mouse_x s = None \<longrightarrow>
            mouse_move (lm ! 8) s =
              (None, s\<lparr>prev_mouse_x := Some tx, prev_mouse_y := Some ty,
                        trace := trace s @ [(None, MoveTo tx ty)]\<rparr>)) \<and>
         (\<forall>px py. prev_mouse_x s = Some px \<and> prev_mouse_y s = Some py \<longrightarrow>
            mouse_move (lm ! 8) s =
              (None, s\<lparr>prev_mouse_x := Some (smooth tx px),
                        prev_mouse_y := Some (smooth ty py),
                        trace := trace s @ [(None, MoveTo (smooth tx px) (smooth ty py))]\<rparr>) \<and>
            (\<forall>n. fst (run (replicate n (Some lm)) s) = None \<and>
                 prev_mouse_x (snd (run (replicate n (Some lm)) s)) = Some ((smooth tx ^^ n) px) \<and>
                 prev_mouse_y (snd (run (replicate n (Some lm)) s)) = Some ((smooth ty ^^ n) py) \<and>
                 \<bar>tx - (smooth tx ^^ n) px\<bar> \<le> max 3 (\<bar>tx - px\<bar> - int n) \<and>
                 \<bar>ty - (smooth ty ^^ n) py\<bar> \<le> max 3 (\<bar>ty - py\<bar> - int n)))"
proof (intro conjI impI allI)
  assume "prev_mouse_x s = None"
  then show "mouse_move (lm ! 8) s =
      (None, s\<lparr>prev_mouse_x := Some tx, prev_mouse_y := Some ty,
                trace := trace s @ [(None, MoveTo tx ty)]\<rparr>)"
    using assms(3,4) by (rule mouse_move_first_smooth)
next
  fix px py
  assume p: "prev_mouse_x s = Some px \<and> prev_mouse_y s = Some py"
  then show "mouse_move (lm ! 8) s =
      (None, s\<lparr>prev_mouse_x := Some (smooth tx px), prev_mouse_y := Some (smooth ty py),
                trace := trace s @ [(None, MoveTo (smooth tx px) (smooth ty py))]\<rparr>)"
    using assms(3,4) by (simp add: mouse_move_next_smooth)
next
  fix px py n
  assume p: "prev_mouse_x s = Some px \<and> prev_mouse_y s = Some py"
  then have px: "prev_mouse_x s = Some px" and py: "prev_mouse_y s = Some py" by simp_all
  note r = run_same_frame [OF assms(2,1) px py assms(3,4), of n]
  from r show "fst (run (replicate n (Some lm)) s) = None" by simp
  from r show "prev_mouse_x (snd (run (replicate n (Some lm)) s)) = Some ((smooth tx ^^ n) px)"
    by simp
  from r show "prev_mouse_y (snd (run (replicate n (Some lm)) s)) = Some ((smooth ty ^^ n) py)"
    by simp
  show "\<bar>tx - (smooth tx ^^ n) px\<bar> \<le> max 3 (\<bar>tx - px\<bar> - int n)" by (rule smooth_iterate)
  show "\<bar>ty - (smooth ty ^^ n) py\<bar> \<le> max 3 (\<bar>ty - py\<bar> - int n)" by (rule smooth_iterate)
qed


lemma after_point_hand_a:
  "prev_mouse_x (snd (run [Some point_hand_a] (initial 1024 768 clock_05))) = Some 957"
  "prev_mouse_y (snd (run [Some point_hand_a] (initial 1024 768 clock_05))) = Some 384"
  "screen_w (snd (run [Some point_hand_a] (initial 1024 768 clock_05))) = 1024"
  "screen_h (snd (run [Some point_hand_a] (initial 1024 768 clock_05))) = 768"
  "coherent (snd (run [Some point_hand_a] (initial 1024 768 clock_05)))"
  "trace (snd (run [Some point_hand_a] (initial 1024 768 clock_05))) = [(None, MoveTo 957 384)]"
  by (simp_all add: classify_point_hand_a more_tips eval_frame coherent_def)

lemma target_point_hand_b:
  "py_int (lm_x (point_hand_b ! 8) * real_of_int 1024) = 960"
  "py_int (lm_y (point_hand_b ! 8) * real_of_int 768) = 384"
  by (simp_all add: more_tips pt_def py_int_def)

lemma funpow_fixed: "f x = x \<Longrightarrow> (f ^^ n) x = x"
  by (induction n) simp_all

lemma smooth_stalls: "smooth 960 957 = 957"
  by (simp add: smooth_def SMOOTHING_def py_int_def)

text \<open>
  C7 as stated fails: with the smoothed x at 957 and the target x at 960, a hundred frames
  with the same hand leave the smoothed x at 957, three pixels from the target.
\<close>

theorem smoothing_stalls_counterexample:
  "prev_mouse_x (snd (run [Some point_hand_a] (initial 1024 768 clock_05))) = Some 957 \<and>
   py_int (lm_x (point_hand_b ! 8) *
     real_of_int (screen_w (snd (run [Some point_hand_a] (initial 1024 768 clock_05))))) = 960 \<and>
   prev_mouse_x (snd (run (replicate 100 (Some point_hand_b))
     (snd (run [Some point_hand_a] (initial 1024 768 clock_05))))) = Some 957"
proof -
  let ?s1 = "snd (run [Some point_hand_a] (initial 1024 768 clock_05))"
  have tx: "960 = py_int (lm_x (point_hand_b ! 8) * real_of_int (screen_w ?s1))"
    unfolding after_point_hand_a(3) by (simp only: target_point_hand_b)
  have ty: "384 = py_int (lm_y (point_hand_b ! 8) * real_of_int (screen_h ?s1))"
    unfolding after_point_hand_a(4) by (simp only: target_point_hand_b)
  from run_same_frame [OF classify_point_hand_b after_point_hand_a(5,1,2) tx ty, of 100]
  have "prev_mouse_x (snd (run (replicate 100 (Some point_hand_b)) ?s1)) =
      Some ((smooth 960 ^^ 100) 957)"
    by blast
  also have "(smooth 960 ^^ 100) 957 = 957"
    by (rule funpow_fixed) (rule smooth_stalls)
  finally show ?thesis using after_point_hand_a(1) tx by simp
qed

theorem pointer_smoothing_witness:
  "coherent (initial 1024 768 clock_05) \<and> classify point_hand_a = Inr ''UNKNOWN'' \<and>
   prev_mouse_x (initial 1024 768 clock_05) = None \<and>
   mouse_move (point_hand_a ! 8) (initial 1024 768 clock_05) =
     (None, (initial 1024 768 clock_05)
        \<lparr>prev_mouse_x := Some 957, prev_mouse_y := Some 384,
          trace := trace (initial 1024 768 clock_05) @ [(None, MoveTo 957 384)]\<rparr>) \<and>
   coherent (snd (run [Some point_hand_a] (initial 1024 768 clock_05))) \<and>
   classify point_hand_b = Inr ''UNKNOWN'' \<and>
   prev_mouse_x (snd (run [Some point_hand_a] (initial 1024 768 clock_05))) = Some 957 \<and>
   prev_mouse_y (snd (run [Some point_hand_a] (initial 1024 768 clock_05))) = Some 384 \<and>
   fst (run (replicate 2 (Some point_hand_b))
     (snd (run [Some point_hand_a] (initial 1024 768 clock_05)))) = None \<and>
   prev_mouse_x (snd (run (replicate 2 (Some point_hand_b))
     (snd (run [Some point_hand_a] (initial 1024 768 clock_05))))) = Some ((smooth 960 ^^ 2) 957) \<and>
   \<bar>960 - (smooth 960 ^^ 2) 957\<bar> \<le> max 3 (\<bar>960 - 957\<bar> - int 2)"
proof -
  let ?s0 = "initial 1024 768 clock_05"
  let ?s1 = "snd (run [Some point_hand_a] ?s0)"
  have tx0: "957 = py_int (lm_x (point_hand_a ! 8) * real_of_int (screen_w ?s0))"
    by (simp add: more_tips pt_def py_int_def initial_def)
  have ty0: "384 = py_int (lm_y (point_hand_a ! 8) * real_of_int (screen_h ?s0))"
    by (simp add: more_tips pt_def py_int_def initial_def)
  have n0: "prev_mouse_x ?s0 = None" by (simp add: initial_def)
  have tx: "960 = py_int (lm_x (point_hand_b ! 8) * real_of_int (screen_w ?s1))"
    unfolding after_point_hand_a(3) by (simp only: target_point_hand_b)
  have ty: "384 = py_int (lm_y (point_hand_b ! 8) * real_of_int (screen_h ?s1))"
    unfolding after_point_hand_a(4) by (simp only: target_point_hand_b)
  from pointer_smoothing [OF coherent_initial classify_point_hand_a tx0 ty0] n0
  have first: "mouse_move (point_hand_a ! 8) ?s0 =
     (None, ?s0\<lparr>prev_mouse_x := Some 957, prev_mouse_y := Some 384,
          trace := trace ?s0 @ [(None, MoveTo 957 384)]\<rparr>)"
    by blast
  from pointer_smoothing [OF after_point_hand_a(5) classify_point_hand_b tx ty]
    after_point_hand_a(1,2)
  have later: "fst (run (replicate 2 (Some point_hand_b)) ?s1) = None \<and>
     prev_mouse_x (snd (run (replicate 2 (Some point_hand_b)) ?s1)) = Some ((smooth 960 ^^ 2) 957) \<and>
     \<bar>960 - (smooth 960 ^^ 2) 957\<bar> \<le> max 3 (\<bar>960 - 957\<bar> - int 2)"
    by blast
  from first later coherent_initial classify_point_hand_a classify_point_hand_b n0
    after_point_hand_a(1,2,5)
  show ?thesis by blast
qed

end
